theory Spec2Isabelle
  imports Main
begin

section \<open>Bytes, strings and slices\<close>

text \<open>
  A Go \<open>string\<close> and a Go \<open>[]byte\<close> are sequences of bytes; both are modelled as
  \<^typ>\<open>string\<close> (a list of 8-bit characters), and \<open>len\<close> is \<^const>\<open>length\<close>.
  Go's \<open>int\<close> is a 64-bit integer in two's complement whose addition, subtraction and
  multiplication wrap around. It is modelled as \<^typ>\<open>int\<close>, and the result of such an
  operation on values that come from the configuration, from a parameter or from a cache
  is \<open>wrap64\<close> of the mathematical result; lengths, indices and counts of values held
  in memory stay far below \<open>2^63\<close> and are added as they are. A panic of the Go runtime
  is a value of type \<open>error\<close>, returned as \<open>Inl\<close>.
\<close>

datatype error =
    SliceBoundsOutOfRange
  | IndexOutOfRange
  | CursorPositionTimeout
  | ChannelNotReady
  | NilPointerDereference
  | SystemMessageTooLong int int
  | GetPromptError string

definition byte :: "char \<Rightarrow> nat" where
  "byte c = of_char c"

definition wrap64 :: "int \<Rightarrow> int" where
  "wrap64 x = (x + 2 ^ 63) mod 2 ^ 64 - 2 ^ 63"

text \<open>The slice expression \<open>s[:n]\<close> on a string: it panics unless \<open>0 \<le> n \<le> len(s)\<close>.\<close>

definition slice_to :: "string \<Rightarrow> int \<Rightarrow> error + string" where
  "slice_to s n =
     (if n < 0 \<or> int (length s) < n then Inl SliceBoundsOutOfRange
      else Inr (take (nat n) s))"

section \<open>ShellBuffer\<close>

text \<open>
  Modelled from the spec: the type \<open>ShellBuffer\<close> and its methods (\<open>NewShellBuffer\<close>,
  \<open>Write\<close>, \<open>Clear\<close>, \<open>Size\<close>, \<open>String\<close>, the setters) are not among the source files;
  only their test is. The specification describes the buffer as a sequence with a cursor
  in \<open>[0, len]\<close>: a complete CSI sequence \<open>ESC [ ... final\<close> is one zero-width token; the
  cursor-move finals \<open>C\<close> and \<open>D\<close> move the cursor right and left by the numeric parameter
  (default 1), \<open>A\<close> and \<open>B\<close> do not change the line; any other CSI token is inserted
  literally; \<open>0x08\<close> and \<open>0x7f\<close> delete the cell left of the cursor; a carriage return
  resets the display column only; every other byte is inserted at the cursor. \<open>Size\<close>
  counts the content without the CSI bytes, \<open>String\<close> renders it with them.
  The bytes that \<open>Write\<close> and \<open>Clear\<close> return for the terminal are not fixed byte by
  byte by the specification; the multiplexer below takes them from a parameter.
\<close>

datatype cell = Plain char | Csi string

record ShellBuffer =
  buffer :: "cell list"
  cursor :: nat
  termWidth :: int
  promptLength :: int
  color :: string

definition NewShellBuffer :: ShellBuffer where
  "NewShellBuffer = \<lparr>buffer = [], cursor = 0, termWidth = 0, promptLength = 0, color = []\<rparr>"

definition is_csi_final :: "char \<Rightarrow> bool" where
  "is_csi_final c = (0x40 \<le> byte c \<and> byte c \<le> 0x7E)"

definition is_csi_param :: "char \<Rightarrow> bool" where
  "is_csi_param c = (0x20 \<le> byte c \<and> byte c \<le> 0x3F)"

fun csi_body :: "string \<Rightarrow> (string \<times> char \<times> string) option" where
  "csi_body [] = None"
| "csi_body (c # cs) =
     (if is_csi_final c then Some ([], c, cs)
      else if is_csi_param c then
        (case csi_body cs of
           None \<Rightarrow> None
         | Some (ps, f, rest) \<Rightarrow> Some (c # ps, f, rest))
      else None)"

fun csi_split :: "string \<Rightarrow> (string \<times> char \<times> string) option" where
  "csi_split (e # b # cs) =
     (if e = CHR 0x1B \<and> b = CHR ''['' then csi_body cs else None)"
| "csi_split cs = None"

definition is_digit :: "char \<Rightarrow> bool" where
  "is_digit c = (0x30 \<le> byte c \<and> byte c \<le> 0x39)"

definition digits_value :: "string \<Rightarrow> int" where
  "digits_value ds = foldl (\<lambda>acc c. 10 * acc + (int (byte c) - 0x30)) 0 ds"

definition csi_count :: "string \<Rightarrow> nat" where
  "csi_count ps = (if ps \<noteq> [] \<and> list_all is_digit ps then nat (digits_value ps) else 1)"

definition insert_cell :: "ShellBuffer \<Rightarrow> cell \<Rightarrow> ShellBuffer" where
  "insert_cell b x =
     b\<lparr>buffer := take (cursor b) (buffer b) @ x # drop (cursor b) (buffer b),
       cursor := Suc (cursor b)\<rparr>"

definition backspace :: "ShellBuffer \<Rightarrow> ShellBuffer" where
  "backspace b =
     (if 0 < cursor b \<and> buffer b \<noteq> []
      then b\<lparr>buffer := take (cursor b - 1) (buffer b) @ drop (cursor b) (buffer b),
             cursor := cursor b - 1\<rparr>
      else b)"

definition apply_csi :: "ShellBuffer \<Rightarrow> string \<Rightarrow> char \<Rightarrow> ShellBuffer" where
  "apply_csi b ps f =
     (if f = CHR ''D'' then b\<lparr>cursor := cursor b - csi_count ps\<rparr>
      else if f = CHR ''C'' then b\<lparr>cursor := min (length (buffer b)) (cursor b + csi_count ps)\<rparr>
      else if f = CHR ''A'' \<or> f = CHR ''B'' then b
      else insert_cell b (Csi (CHR 0x1B # CHR ''['' # ps @ [f])))"

definition write_byte :: "ShellBuffer \<Rightarrow> char \<Rightarrow> ShellBuffer" where
  "write_byte b c =
     (if c = CHR 0x08 \<or> c = CHR 0x7F then backspace b
      else if c = CHR 0x0D then b
      else insert_cell b (Plain c))"

lemma csi_body_shorter:
  "csi_body cs = Some (ps, f, rest) \<Longrightarrow> length rest < length cs"
  by (induction cs arbitrary: ps) (auto split: if_splits option.splits)

lemma csi_split_shorter:
  "csi_split cs = Some (ps, f, rest) \<Longrightarrow> length rest < length cs"
  by (cases cs rule: csi_split.cases) (auto split: if_splits dest: csi_body_shorter)

function Write :: "ShellBuffer \<Rightarrow> string \<Rightarrow> ShellBuffer" where
  "Write b [] = b"
| "Write b (c # cs) =
     (case csi_split (c # cs) of
        Some (ps, f, rest) \<Rightarrow> Write (apply_csi b ps f) rest
      | None \<Rightarrow> Write (write_byte b c) cs)"
  by pat_completeness auto
termination
  by (relation "measure (\<lambda>(b, s). length s)") (auto dest: csi_split_shorter)

definition Clear :: "ShellBuffer \<Rightarrow> ShellBuffer" where
  "Clear b = b\<lparr>buffer := [], cursor := 0\<rparr>"

definition Size :: "ShellBuffer \<Rightarrow> int" where
  "Size b = int (length (filter (\<lambda>x. case x of Plain c \<Rightarrow> True | Csi s \<Rightarrow> False) (buffer b)))"

definition String :: "ShellBuffer \<Rightarrow> string" where
  "String b = concat (map (\<lambda>x. case x of Plain c \<Rightarrow> [c] | Csi s \<Rightarrow> s) (buffer b))"

definition SetTerminalWidth :: "ShellBuffer \<Rightarrow> int \<Rightarrow> ShellBuffer" where
  "SetTerminalWidth b w = b\<lparr>termWidth := w\<rparr>"

definition SetColor :: "ShellBuffer \<Rightarrow> string \<Rightarrow> ShellBuffer" where
  "SetColor b c = b\<lparr>color := c\<rparr>"

definition SetPromptLength :: "ShellBuffer \<Rightarrow> int \<Rightarrow> ShellBuffer" where
  "SetPromptLength b n = b\<lparr>promptLength := n\<rparr>"

section \<open>History\<close>

text \<open>
  The constants \<open>historyTypePrompt\<close> ... \<open>historyTypeLLMOutput\<close> of the source are the
  four values of an enumeration; \<open>ShellHistory\<close> holds the blocks oldest first. The mutex
  of \<open>ShellHistory\<close> is not part of the sequential model.
\<close>

datatype historyType =
    historyTypePrompt
  | historyTypeShellInput
  | historyTypeShellOutput
  | historyTypeLLMOutput

record Tokenization =
  InputLength :: int
  NumTokens :: int
  Data :: string

record HistoryBuffer =
  Type :: historyType
  Content :: ShellBuffer
  Tokenizations :: "string \<rightharpoonup> Tokenization"

record ShellHistory =
  Blocks :: "HistoryBuffer list"

text \<open>The type \<open>util.HistoryBlock\<close> handed to the completion request.\<close>

record HistoryBlock =
  BlockType :: historyType
  BlockContent :: string

definition SetTokenization :: "HistoryBuffer \<Rightarrow> string \<Rightarrow> int \<Rightarrow> int \<Rightarrow> string \<Rightarrow> HistoryBuffer" where
  "SetTokenization this encoding inputLength numTokens data =
     this\<lparr>Tokenizations := (Tokenizations this)(encoding \<mapsto>
       \<lparr>InputLength = inputLength, NumTokens = numTokens, Data = data\<rparr>)\<rparr>"

definition GetTokenization :: "HistoryBuffer \<Rightarrow> string \<Rightarrow> int \<Rightarrow> (string \<times> int) option" where
  "GetTokenization this encoding len =
     (case Tokenizations this encoding of
        None \<Rightarrow> None
      | Some tokenization \<Rightarrow>
          if InputLength tokenization \<noteq> len then None
          else Some (Data tokenization, NumTokens tokenization))"

definition NewShellHistory :: ShellHistory where
  "NewShellHistory = \<lparr>Blocks = []\<rparr>"

definition add :: "ShellHistory \<Rightarrow> historyType \<Rightarrow> string \<Rightarrow> ShellHistory" where
  "add this historyType block =
     this\<lparr>Blocks := Blocks this @
       [\<lparr>Type = historyType, Content = Write NewShellBuffer block, Tokenizations = Map.empty\<rparr>]\<rparr>"

definition Append :: "ShellHistory \<Rightarrow> historyType \<Rightarrow> string \<Rightarrow> ShellHistory" where
  "Append this historyType data =
     (if length data = 0 then this
      else if 0 < length (Blocks this) \<and> Type (last (Blocks this)) = historyType
      then this\<lparr>Blocks := butlast (Blocks this) @
             [(last (Blocks this))\<lparr>Content := Write (Content (last (Blocks this))) data\<rparr>]\<rparr>
      else add this historyType data)"

text \<open>A sequence of \<open>Append\<close> calls, applied in order.\<close>

fun Appends :: "ShellHistory \<Rightarrow> (historyType \<times> string) list \<Rightarrow> ShellHistory" where
  "Appends this [] = this"
| "Appends this ((k, d) # calls) = Appends (Append this k d) calls"

text \<open>No two adjacent blocks share a kind.\<close>

fun alternating :: "HistoryBuffer list \<Rightarrow> bool" where
  "alternating (a # b # bs) = (Type a \<noteq> Type b \<and> alternating (b # bs))"
| "alternating bs = True"

text \<open>
  Modelled from the spec: \<open>sanitizeTTYString\<close> is not among the source files; the
  specification calls its result "sanitized (printable-plus-whitespace)". The model keeps
  the printable ASCII bytes, tab, line feed and carriage return, and the bytes of
  multi-byte UTF-8 characters. No proof below depends on which bytes it keeps.
\<close>

definition printable_or_space :: "char \<Rightarrow> bool" where
  "printable_or_space c =
     (c = CHR 0x09 \<or> c = CHR 0x0A \<or> c = CHR 0x0D \<or> (0x20 \<le> byte c \<and> byte c \<noteq> 0x7F))"

definition sanitizeTTYString :: "string \<Rightarrow> string" where
  "sanitizeTTYString data = filter printable_or_space data"

text \<open>
  \<open>GetLastNBytes\<close>: the loop walks the blocks from the newest one while \<open>numBytes > 0\<close>
  and appends to \<open>blocks\<close>; the second loop of the source reverses \<open>blocks\<close> in place.
  The first argument of the loop function is the part of the history not yet visited,
  newest block first.
\<close>

fun GetLastNBytes_loop ::
  "HistoryBuffer list \<Rightarrow> int \<Rightarrow> int \<Rightarrow> HistoryBlock list \<Rightarrow> error + HistoryBlock list" where
  "GetLastNBytes_loop [] numBytes truncateLength blocks = Inr blocks"
| "GetLastNBytes_loop (block # older) numBytes truncateLength blocks =
     (if \<not> 0 < numBytes then Inr blocks
      else
        let content = sanitizeTTYString (String (Content block)) in
        case (if truncateLength < int (length content)
              then slice_to content truncateLength else Inr content) of
          Inl e \<Rightarrow> Inl e
        | Inr content \<Rightarrow>
            if numBytes < int (length content) then Inr blocks
            else GetLastNBytes_loop older (numBytes - int (length content)) truncateLength
                   (blocks @ [\<lparr>BlockType = Type block, BlockContent = content\<rparr>]))"

definition GetLastNBytes :: "ShellHistory \<Rightarrow> int \<Rightarrow> int \<Rightarrow> error + HistoryBlock list" where
  "GetLastNBytes this numBytes truncateLength =
     (case GetLastNBytes_loop (rev (Blocks this)) numBytes truncateLength [] of
        Inl e \<Rightarrow> Inl e
      | Inr blocks \<Rightarrow> Inr (rev blocks))"

text \<open>
  \<open>IterateBlocks\<close> calls \<open>cb\<close> on the blocks from the newest to the oldest until \<open>cb\<close>
  returns \<open>false\<close>. The callback of the source is a closure that updates the variables it
  captures and the block it is given (through the pointer); in the model it takes the
  captured variables as a state \<open>'s\<close> and returns the block, the state and the flag.
  The list argument and the list result are newest first.
\<close>

fun IterateBlocks ::
  "('s \<Rightarrow> HistoryBuffer \<Rightarrow> error + (HistoryBuffer \<times> 's \<times> bool)) \<Rightarrow>
   HistoryBuffer list \<Rightarrow> 's \<Rightarrow> error + (HistoryBuffer list \<times> 's)" where
  "IterateBlocks cb [] s = Inr ([], s)"
| "IterateBlocks cb (block # older) s =
     (case cb s block of
        Inl e \<Rightarrow> Inl e
      | Inr (block', s', cont) \<Rightarrow>
          if cont then
            (case IterateBlocks cb older s' of
               Inl e \<Rightarrow> Inl e
             | Inr (older', s'') \<Rightarrow> Inr (block' # older', s''))
          else Inr (block' # older, s'))"

section \<open>Chat assembly\<close>

text \<open>
  The tokenizer (\<open>tiktoken.Tiktoken\<close>) is an external library: the model takes its
  \<open>Encode\<close>, \<open>Decode\<close> and \<open>EncoderName\<close> as the fields of a record and assumes nothing
  about them.
\<close>

record Tiktoken =
  Encode :: "string \<Rightarrow> int list"
  Decode :: "int list \<Rightarrow> string"
  EncoderName :: string

text \<open>
  \<open>countAndTruncate\<close>. The slice \<open>tokens[:maxTokens]\<close> is evaluated when
  \<open>len(tokens) >= maxTokens\<close>; it panics when \<open>maxTokens\<close> is negative.
\<close>

definition countAndTruncate :: "string \<Rightarrow> Tiktoken \<Rightarrow> int \<Rightarrow> error + (int \<times> string \<times> bool)" where
  "countAndTruncate data encoder maxTokens =
     (let tokens = Encode encoder data in
      if maxTokens \<le> int (length tokens) then
        (if maxTokens < 0 then Inl SliceBoundsOutOfRange
         else
           let tokens = take (nat maxTokens) tokens in
           Inr (int (length tokens), Decode encoder tokens, True))
      else Inr (int (length tokens), data, False))"

text \<open>
  Modelled from the spec: \<open>ShellHistoryTypeToRole\<close> is not among the source files. The
  specification maps UserPrompt and ShellInput to "user" and LLMOutput to "assistant";
  ShellOutput has no role, since those blocks are filtered before the role is asked for.
\<close>

fun ShellHistoryTypeToRole :: "historyType \<Rightarrow> string" where
  "ShellHistoryTypeToRole historyTypePrompt = ''user''"
| "ShellHistoryTypeToRole historyTypeShellInput = ''user''"
| "ShellHistoryTypeToRole historyTypeLLMOutput = ''assistant''"
| "ShellHistoryTypeToRole historyTypeShellOutput = []"

text \<open>
  The cache miss of \<open>getHistoryBlocksByTokens\<close> (the lines from
  \<open>contentStr := block.Content.String()\<close> to the call of \<open>countAndTruncate\<close>): the content
  sent for a block and its token count, computed from the block's content buffer.
\<close>

definition tokenizeContent :: "Tiktoken \<Rightarrow> int \<Rightarrow> ShellBuffer \<Rightarrow> error + (string \<times> int)" where
  "tokenizeContent encoder maxHistoryBlockTokens blockContent =
     (let contentLen = Size blockContent;
          contentStr = String blockContent;
          ceiling = wrap64 (maxHistoryBlockTokens * 4) in
      case (if ceiling < contentLen then slice_to contentStr ceiling else Inr contentStr) of
        Inl e \<Rightarrow> Inl e
      | Inr contentStr \<Rightarrow>
          (case countAndTruncate (sanitizeTTYString contentStr) encoder maxHistoryBlockTokens of
             Inl e \<Rightarrow> Inl e
           | Inr (contentTokens, content, truncated) \<Rightarrow> Inr (content, contentTokens)))"

text \<open>
  The cache lookup around it (from \<open>contentLen := block.Content.Size()\<close> to the call of
  \<open>SetTokenization\<close>): the content, its token count, and the block with its cache as the
  code leaves it.
\<close>

definition blockTokenization ::
  "Tiktoken \<Rightarrow> int \<Rightarrow> HistoryBuffer \<Rightarrow> error + (string \<times> int \<times> HistoryBuffer)" where
  "blockTokenization encoder maxHistoryBlockTokens block =
     (let contentLen = Size (Content block) in
      case GetTokenization block (EncoderName encoder) contentLen of
        Some (content, contentTokens) \<Rightarrow> Inr (content, contentTokens, block)
      | None \<Rightarrow>
          (case tokenizeContent encoder maxHistoryBlockTokens (Content block) of
             Inl e \<Rightarrow> Inl e
           | Inr (content, contentTokens) \<Rightarrow>
               Inr (content, contentTokens,
                    SetTokenization block (EncoderName encoder) contentLen contentTokens content)))"

text \<open>The closure passed to \<open>IterateBlocks\<close>; its state is \<open>(blocks, usedTokens)\<close>.\<close>

definition historyBlockCallback ::
  "Tiktoken \<Rightarrow> int \<Rightarrow> int \<Rightarrow> int \<Rightarrow> HistoryBlock list \<times> int \<Rightarrow> HistoryBuffer \<Rightarrow>
   error + (HistoryBuffer \<times> (HistoryBlock list \<times> int) \<times> bool)" where
  "historyBlockCallback encoder maxHistoryBlockTokens maxTokens tokensPerMessage s block =
     (case s of (blocks, usedTokens) \<Rightarrow>
      if Type block = historyTypeShellOutput then Inr (block, (blocks, usedTokens), True)
      else if Size (Content block) = 0 then Inr (block, (blocks, usedTokens), True)
      else
        (let roleString = ShellHistoryTypeToRole (Type block);
             msgTokens = wrap64 (tokensPerMessage + int (length (Encode encoder roleString))) in
         (case blockTokenization encoder maxHistoryBlockTokens block of
            Inl e \<Rightarrow> Inl e
          | Inr (content, contentTokens, block') \<Rightarrow>
              (let msgTokens = wrap64 (msgTokens + contentTokens) in
               if maxTokens < wrap64 (usedTokens + msgTokens)
               then Inr (block', (blocks, usedTokens), False)
               else Inr (block',
                         (\<lparr>BlockType = Type block, BlockContent = content\<rparr> # blocks,
                          wrap64 (usedTokens + msgTokens)),
                         True)))))"

text \<open>
  \<open>getHistoryBlocksByTokens\<close> returns the blocks and the tokens used; the model also
  returns the history, whose blocks carry the tokenizations the call has cached.
\<close>

definition getHistoryBlocksByTokens ::
  "ShellHistory \<Rightarrow> Tiktoken \<Rightarrow> int \<Rightarrow> int \<Rightarrow> int \<Rightarrow>
   error + (ShellHistory \<times> HistoryBlock list \<times> int)" where
  "getHistoryBlocksByTokens history encoder maxHistoryBlockTokens maxTokens tokensPerMessage =
     (case IterateBlocks
             (historyBlockCallback encoder maxHistoryBlockTokens maxTokens tokensPerMessage)
             (rev (Blocks history)) ([], 0) of
        Inl e \<Rightarrow> Inl e
      | Inr (visited, (blocks, usedTokens)) \<Rightarrow>
          Inr (history\<lparr>Blocks := rev visited\<rparr>, blocks, usedTokens))"

text \<open>
  \<open>assembleChat\<close>. \<open>NumTokensPerMessageForModel\<close> is not among the source files (the
  specification calls it a model-dependent constant) and is a parameter. The error
  return of the source is \<open>Inl (SystemMessageTooLong usedTokens maxTokens)\<close>; the
  \<open>functions\<close> argument is ignored, as in the source.
\<close>

definition assembleChat ::
  "(string \<Rightarrow> int) \<Rightarrow> string \<Rightarrow> string \<Rightarrow> string \<Rightarrow> ShellHistory \<Rightarrow> string \<Rightarrow> Tiktoken \<Rightarrow>
   int \<Rightarrow> int \<Rightarrow> int \<Rightarrow> error + (ShellHistory \<times> string \<times> HistoryBlock list)" where
  "assembleChat NumTokensPerMessageForModel prompt sysMsg functions history model encoder
     maxPromptTokens maxHistoryBlockTokens maxTokens =
     (let tokensPerMessage = NumTokensPerMessageForModel model;
          usedTokens = 3 in
      case countAndTruncate prompt encoder maxPromptTokens of
        Inl e \<Rightarrow> Inl e
      | Inr (numPromptTokens, prompt', truncated) \<Rightarrow>
          let usedTokens = wrap64 (usedTokens + numPromptTokens);
              sysMsgTokens = Encode encoder sysMsg;
              usedTokens = wrap64 (usedTokens + wrap64 (int (length sysMsgTokens) + tokensPerMessage)) in
          if maxTokens < usedTokens then Inl (SystemMessageTooLong usedTokens maxTokens)
          else
            (case getHistoryBlocksByTokens history encoder maxHistoryBlockTokens
                    (wrap64 (maxTokens - usedTokens)) tokensPerMessage of
               Inl e \<Rightarrow> Inl e
             | Inr (history', blocks, historyTokens) \<Rightarrow> Inr (history', prompt', blocks)))"

section \<open>Properties of the history\<close>

subsection \<open>Append keeps adjacent kinds distinct\<close>

lemma alternating_snoc:
  "alternating (xs @ [b]) \<longleftrightarrow> alternating xs \<and> (xs = [] \<or> Type (last xs) \<noteq> Type b)"
  by (induction xs rule: alternating.induct) auto

lemma alternating_update_last:
  "alternating xs \<Longrightarrow> xs \<noteq> [] \<Longrightarrow> Type b = Type (last xs) \<Longrightarrow> alternating (butlast xs @ [b])"
  by (induction xs rule: alternating.induct) (auto split: if_splits)

lemma Append_alternating:
  assumes "alternating (Blocks this)"
  shows "alternating (Blocks (Append this k d))"
proof (cases "d \<noteq> [] \<and> Blocks this \<noteq> [] \<and> Type (last (Blocks this)) = k")
  case True
  then show ?thesis
    using assms alternating_update_last [of "Blocks this"] by (simp add: Append_def)
next
  case False
  then show ?thesis
    using assms by (auto simp: Append_def add_def alternating_snoc)
qed

lemma Appends_alternating:
  "alternating (Blocks this) \<Longrightarrow> alternating (Blocks (Appends this calls))"
  by (induction calls arbitrary: this) (auto simp: Append_alternating)

text \<open>
  Claim C6. After any sequence of \<open>Append\<close> calls on a new \<open>ShellHistory\<close> no two adjacent
  blocks share a kind; an \<open>Append\<close> of non-empty data whose kind is the last block's kind
  keeps the number of blocks and writes the data into that block's content, any other
  \<open>Append\<close> of non-empty data adds one block; an \<open>Append\<close> of empty data returns the
  history unchanged.
\<close>

theorem Append_merges_same_kind:
  "alternating (Blocks (Appends NewShellHistory calls))
   \<and> Append this k [] = this
   \<and> (d \<noteq> [] \<and> Blocks this \<noteq> [] \<and> Type (last (Blocks this)) = k \<longrightarrow>
        Blocks (Append this k d) =
          butlast (Blocks this) @
            [(last (Blocks this))\<lparr>Content := Write (Content (last (Blocks this))) d\<rparr>])
   \<and> (d \<noteq> [] \<and> (Blocks this = [] \<or> Type (last (Blocks this)) \<noteq> k) \<longrightarrow>
        Blocks (Append this k d) =
          Blocks this @
            [\<lparr>Type = k, Content = Write NewShellBuffer d, Tokenizations = Map.empty\<rparr>])"
  by (auto simp: Appends_alternating NewShellHistory_def Append_def add_def)

theorem Append_merges_same_kind_witness:
  "Blocks (Append (Append NewShellHistory historyTypePrompt ''ab'') historyTypePrompt ''c'') =
     [\<lparr>Type = historyTypePrompt, Content = Write (Write NewShellBuffer ''ab'') ''c'',
       Tokenizations = Map.empty\<rparr>]
   \<and> Blocks (Append (Append NewShellHistory historyTypePrompt ''ab'') historyTypeShellInput ''c'') =
     [\<lparr>Type = historyTypePrompt, Content = Write NewShellBuffer ''ab'', Tokenizations = Map.empty\<rparr>,
      \<lparr>Type = historyTypeShellInput, Content = Write NewShellBuffer ''c'', Tokenizations = Map.empty\<rparr>]
   \<and> String (Write (Write NewShellBuffer ''ab'') ''c'') = ''abc''"
proof -
  let ?h = "Append NewShellHistory historyTypePrompt ''ab''"
  have b: "Blocks ?h =
      [\<lparr>Type = historyTypePrompt, Content = Write NewShellBuffer ''ab'', Tokenizations = Map.empty\<rparr>]"
    by (simp add: Append_def add_def NewShellHistory_def)
  have s: "String (Write (Write NewShellBuffer ''ab'') ''c'') = ''abc''"
    by code_simp
  from Append_merges_same_kind [of "[]" ?h historyTypePrompt "''c''"]
       Append_merges_same_kind [of "[]" ?h historyTypeShellInput "''c''"] b s
  show ?thesis by simp
qed

subsection \<open>The debugging view\<close>

text \<open>
  One block as \<open>GetLastNBytes\<close> shows it, and the bytes of a list of such blocks. The
  subtraction \<open>numBytes - len(content)\<close> of the loop is taken when
  \<open>0 \<le> len(content) \<le> numBytes\<close>, so it does not wrap around.
\<close>

definition blockView :: "int \<Rightarrow> HistoryBuffer \<Rightarrow> HistoryBlock" where
  "blockView truncateLength block =
     \<lparr>BlockType = Type block,
      BlockContent = take (nat truncateLength) (sanitizeTTYString (String (Content block)))\<rparr>"

definition contentBytes :: "HistoryBlock list \<Rightarrow> int" where
  "contentBytes blocks = sum_list (map (\<lambda>b. int (length (BlockContent b))) blocks)"

lemma contentBytes_simps [simp]:
  "contentBytes [] = 0"
  "contentBytes (b # bs) = int (length (BlockContent b)) + contentBytes bs"
  by (simp_all add: contentBytes_def)

lemma contentBytes_nonneg: "0 \<le> contentBytes bs"
  by (induction bs) auto

lemma loop_step:
  assumes "0 \<le> tlen"
  shows "GetLastNBytes_loop (b # bs) nb tlen acc =
     (if \<not> 0 < nb then Inr acc
      else if nb < int (length (BlockContent (blockView tlen b))) then Inr acc
      else GetLastNBytes_loop bs (nb - int (length (BlockContent (blockView tlen b)))) tlen (acc @ [blockView tlen b]))"
  using assms by (auto simp: blockView_def slice_to_def Let_def min_def)

lemma GetLastNBytes_loop_take:
  assumes "0 \<le> tlen"
  shows "\<exists>n\<le>length bs.
      GetLastNBytes_loop bs nb tlen acc = Inr (acc @ map (blockView tlen) (take n bs))
    \<and> (0 \<le> nb \<longrightarrow> contentBytes (map (blockView tlen) (take n bs)) \<le> nb)
    \<and> (n < length bs \<longrightarrow>
          nb - contentBytes (map (blockView tlen) (take n bs)) \<le> 0
        \<or> nb - contentBytes (map (blockView tlen) (take n bs)) < int (length (BlockContent (blockView tlen (bs ! n)))))"
proof (induction bs arbitrary: nb acc)
  case Nil
  then show ?case by simp
next
  case (Cons b bs)
  let ?c = "int (length (BlockContent (blockView tlen b)))"
  show ?case
  proof (cases "0 < nb \<and> \<not> nb < ?c")
    case False
    then have "GetLastNBytes_loop (b # bs) nb tlen acc = Inr acc"
      by (auto simp only: loop_step [OF assms] split: if_splits)
    with False show ?thesis
      by (intro exI [of _ 0]) auto
  next
    case True
    then have step: "GetLastNBytes_loop (b # bs) nb tlen acc =
        GetLastNBytes_loop bs (nb - ?c) tlen (acc @ [blockView tlen b])"
      by (simp only: loop_step [OF assms] if_False simp_thms)
    from Cons.IH [of "nb - ?c" "acc @ [blockView tlen b]"] obtain n where n:
      "n \<le> length bs"
      "GetLastNBytes_loop bs (nb - ?c) tlen (acc @ [blockView tlen b]) = Inr ((acc @ [blockView tlen b]) @ map (blockView tlen) (take n bs))"
      "0 \<le> nb - ?c \<longrightarrow> contentBytes (map (blockView tlen) (take n bs)) \<le> nb - ?c"
      "n < length bs \<longrightarrow>
          nb - ?c - contentBytes (map (blockView tlen) (take n bs)) \<le> 0
        \<or> nb - ?c - contentBytes (map (blockView tlen) (take n bs)) < int (length (BlockContent (blockView tlen (bs ! n))))"
      by blast
    show ?thesis
      using n step True by (intro exI [of _ "Suc n"]) auto
  qed
qed

lemma blockView_length: "0 \<le> tlen \<Longrightarrow> int (length (BlockContent (blockView tlen b))) \<le> tlen"
  by (simp add: blockView_def)

text \<open>
  Claim C8. For every byte budget \<open>maxBytes \<ge> 0\<close> and every truncation length
  \<open>truncateLen \<ge> 0\<close>, \<open>GetLastNBytes\<close> returns the last \<open>n\<close> blocks of the history, oldest
  first, each with its content sanitized and cut to at most \<open>truncateLen\<close> bytes; the
  content lengths sum to at most \<open>maxBytes\<close>; and when a block is left out, either the
  budget is used up or the newest block left out (the one at which the walk stops) is
  longer, after the cut, than what remains of the budget.
\<close>

theorem GetLastNBytes_recent_blocks:
  assumes "0 \<le> maxBytes" and "0 \<le> truncateLen"
  shows "\<exists>n\<le>length (Blocks this).
      GetLastNBytes this maxBytes truncateLen =
        Inr (map (blockView truncateLen) (drop (length (Blocks this) - n) (Blocks this)))
    \<and> (\<forall>b \<in> set (drop (length (Blocks this) - n) (Blocks this)).
          BlockContent (blockView truncateLen b) = take (nat truncateLen) (sanitizeTTYString (String (Content b)))
        \<and> int (length (BlockContent (blockView truncateLen b))) \<le> truncateLen)
    \<and> contentBytes (map (blockView truncateLen) (drop (length (Blocks this) - n) (Blocks this))) \<le> maxBytes
    \<and> (n < length (Blocks this) \<longrightarrow>
          maxBytes = contentBytes (map (blockView truncateLen) (drop (length (Blocks this) - n) (Blocks this)))
        \<or> maxBytes - contentBytes (map (blockView truncateLen) (drop (length (Blocks this) - n) (Blocks this)))
            < int (length (BlockContent (blockView truncateLen (Blocks this ! (length (Blocks this) - 1 - n))))))"
proof -
  let ?B = "Blocks this"
  from GetLastNBytes_loop_take [OF assms(2), of "rev ?B" maxBytes "[]"] obtain n where n:
    "n \<le> length ?B"
    "GetLastNBytes_loop (rev ?B) maxBytes truncateLen [] = Inr (map (blockView truncateLen) (take n (rev ?B)))"
    "contentBytes (map (blockView truncateLen) (take n (rev ?B))) \<le> maxBytes"
    "n < length ?B \<longrightarrow>
        maxBytes - contentBytes (map (blockView truncateLen) (take n (rev ?B))) \<le> 0
      \<or> maxBytes - contentBytes (map (blockView truncateLen) (take n (rev ?B)))
          < int (length (BlockContent (blockView truncateLen (rev ?B ! n))))"
    using assms(1) by auto
  have r: "rev (map (blockView truncateLen) (take n (rev ?B))) = map (blockView truncateLen) (drop (length ?B - n) ?B)"
    by (simp add: rev_map rev_take)
  have c: "contentBytes (map (blockView truncateLen) (take n (rev ?B))) =
           contentBytes (map (blockView truncateLen) (drop (length ?B - n) ?B))"
    unfolding r [symmetric] contentBytes_def by (simp add: rev_map [symmetric])
  have i: "n < length ?B \<Longrightarrow> rev ?B ! n = ?B ! (length ?B - 1 - n)"
    by (simp add: rev_nth)
  show ?thesis
    using n r c i assms(2)
    by (intro exI [of _ n]) (auto simp: GetLastNBytes_def blockView_length blockView_def)
qed

theorem GetLastNBytes_recent_blocks_witness:
  "(0::int) \<le> 6 \<and> (0::int) \<le> 4
   \<and> GetLastNBytes
        (Appends NewShellHistory
          [(historyTypePrompt, ''How?''), (historyTypeLLMOutput, ''abcdefgh''),
           (historyTypeShellInput, ''ls'')]) 6 4 =
       Inr [\<lparr>BlockType = historyTypeLLMOutput, BlockContent = ''abcd''\<rparr>,
            \<lparr>BlockType = historyTypeShellInput, BlockContent = ''ls''\<rparr>]"
proof -
  have v: "GetLastNBytes
        (Appends NewShellHistory
          [(historyTypePrompt, ''How?''), (historyTypeLLMOutput, ''abcdefgh''),
           (historyTypeShellInput, ''ls'')]) 6 4 =
       Inr [\<lparr>BlockType = historyTypeLLMOutput, BlockContent = ''abcd''\<rparr>,
            \<lparr>BlockType = historyTypeShellInput, BlockContent = ''ls''\<rparr>]"
    by code_simp
  have h: "(0::int) \<le> 6" "(0::int) \<le> 4" by simp_all
  from GetLastNBytes_recent_blocks [OF h] v h show ?thesis by simp
qed

text \<open>
  The claim as stated, for every \<open>maxBytes\<close> and \<open>truncateLen\<close>, fails outside that
  domain. With a budget of \<open>-3\<close> the loop is not entered and the empty list is returned,
  whose content lengths sum to 0, more than the budget. With a truncation length of \<open>-1\<close>
  the slice \<open>content[:truncateLength]\<close> panics on the first block and nothing is returned.
\<close>

theorem GetLastNBytes_domain_counterexample:
  "GetLastNBytes
     (Appends NewShellHistory
       [(historyTypePrompt, ''How?''), (historyTypeLLMOutput, ''abcdefgh''),
        (historyTypeShellInput, ''ls'')]) (- 3) 4 = Inr []
   \<and> - 3 < contentBytes []
   \<and> GetLastNBytes
       (Appends NewShellHistory
         [(historyTypePrompt, ''How?''), (historyTypeLLMOutput, ''abcdefgh''),
          (historyTypeShellInput, ''ls'')]) 6 (- 1) = Inl SliceBoundsOutOfRange"
proof -
  have 1: "GetLastNBytes
     (Appends NewShellHistory
       [(historyTypePrompt, ''How?''), (historyTypeLLMOutput, ''abcdefgh''),
        (historyTypeShellInput, ''ls'')]) (- 3) 4 = Inr []"
    by code_simp
  have 2: "- 3 < contentBytes []"
    by simp
  have 3: "GetLastNBytes
       (Appends NewShellHistory
         [(historyTypePrompt, ''How?''), (historyTypeLLMOutput, ''abcdefgh''),
          (historyTypeShellInput, ''ls'')]) 6 (- 1) = Inl SliceBoundsOutOfRange"
    by code_simp
  from 1 2 3 show ?thesis by (intro conjI)
qed

section \<open>Properties of chat assembly\<close>

text \<open>
  A tokenizer for concrete evaluation: one token per byte. It stands for the external
  library in the closed theorems below; the general theorems hold for every tokenizer.
\<close>

definition byteEncoder :: Tiktoken where
  "byteEncoder =
     \<lparr>Encode = map (\<lambda>c. int (byte c)), Decode = map (\<lambda>t. char_of (nat t)), EncoderName = ''bytes''\<rparr>"

subsection \<open>countAndTruncate\<close>

lemma countAndTruncate_below:
  "int (length (Encode encoder data)) < maxTokens \<Longrightarrow>
   countAndTruncate data encoder maxTokens = Inr (int (length (Encode encoder data)), data, False)"
  by (simp add: countAndTruncate_def)

lemma countAndTruncate_above:
  "0 \<le> maxTokens \<Longrightarrow> maxTokens \<le> int (length (Encode encoder data)) \<Longrightarrow>
   countAndTruncate data encoder maxTokens =
     Inr (maxTokens, Decode encoder (take (nat maxTokens) (Encode encoder data)), True)"
  by (auto simp: countAndTruncate_def Let_def min_def)

lemma countAndTruncate_count:
  "countAndTruncate data encoder maxTokens = Inr (n, data', truncated) \<Longrightarrow> n \<le> maxTokens"
  by (auto simp: countAndTruncate_def Let_def min_def split: if_splits)

text \<open>
  Claim C7. What \<open>countAndTruncate\<close> does with a string of exactly \<open>maxTokens\<close> tokens: the
  comparison is \<open>len(tokens) >= maxTokens\<close>, so it takes the truncation branch, returns the
  re-decoding of all the tokens and reports truncation, although no token was removed.
\<close>

theorem countAndTruncate_at_limit:
  "int (length (Encode encoder data)) = maxTokens \<Longrightarrow>
   countAndTruncate data encoder maxTokens =
     Inr (maxTokens, Decode encoder (Encode encoder data), True)"
  by (auto simp: countAndTruncate_def Let_def)

theorem countAndTruncate_at_limit_witness:
  "int (length (Encode byteEncoder ''ls'')) = 2
   \<and> countAndTruncate ''ls'' byteEncoder 2 = Inr (2, Decode byteEncoder (Encode byteEncoder ''ls''), True)
   \<and> Decode byteEncoder (Encode byteEncoder ''ls'') = ''ls''"
proof -
  have h: "int (length (Encode byteEncoder ''ls'')) = 2"
    by (simp add: byteEncoder_def)
  have d: "Decode byteEncoder (Encode byteEncoder ''ls'') = ''ls''"
    by code_simp
  from countAndTruncate_at_limit [OF h] h d show ?thesis by simp
qed

subsection \<open>The combined budget\<close>

text \<open>
  The blocks the walk does not skip, and what the code sends and charges for one of them:
  the block with the content from \<open>blockTokenization\<close>, and \<open>msgTokens\<close>, the sum of
  \<open>tokensPerMessage\<close>, the tokens of the role string and the content's token count, added
  as the code adds them.
\<close>

definition eligible :: "HistoryBuffer \<Rightarrow> bool" where
  "eligible block = (Type block \<noteq> historyTypeShellOutput \<and> Size (Content block) \<noteq> 0)"

definition msgTokensOf :: "Tiktoken \<Rightarrow> int \<Rightarrow> historyType \<Rightarrow> int \<Rightarrow> int" where
  "msgTokensOf encoder tokensPerMessage kind contentTokens =
     wrap64 (wrap64 (tokensPerMessage + int (length (Encode encoder (ShellHistoryTypeToRole kind))))
             + contentTokens)"

definition msgCost :: "Tiktoken \<Rightarrow> int \<Rightarrow> int \<Rightarrow> HistoryBuffer \<Rightarrow> (HistoryBlock \<times> int) option" where
  "msgCost encoder maxHistoryBlockTokens tokensPerMessage block =
     (case blockTokenization encoder maxHistoryBlockTokens block of
        Inl e \<Rightarrow> None
      | Inr (content, contentTokens, block') \<Rightarrow>
          Some (\<lparr>BlockType = Type block, BlockContent = content\<rparr>,
                msgTokensOf encoder tokensPerMessage (Type block) contentTokens))"

text \<open>
  The tokens of a chat, counted on the chat itself with the encoder: 3, the tokens of the
  prompt, the tokens of the system message and \<open>tokensPerMessage\<close> for it, and for every
  block \<open>tokensPerMessage\<close>, the tokens of its role string and the tokens of its content.
\<close>

definition tokenCount :: "Tiktoken \<Rightarrow> string \<Rightarrow> int" where
  "tokenCount encoder s = int (length (Encode encoder s))"




definition entryAccurate :: "Tiktoken \<Rightarrow> HistoryBuffer \<Rightarrow> bool" where
  "entryAccurate encoder block =
     (case Tokenizations block (EncoderName encoder) of
        None \<Rightarrow> True
      | Some t \<Rightarrow> tokenCount encoder (Data t) \<le> NumTokens t \<and> NumTokens t < 2 ^ 60)"





lemma msgCost_Inr:
  "blockTokenization enc mh b = Inr (content, contentTokens, b') \<Longrightarrow>
   msgCost enc mh tpm b =
     Some (\<lparr>BlockType = Type b, BlockContent = content\<rparr>, msgTokensOf enc tpm (Type b) contentTokens)"
  by (simp add: msgCost_def)

lemma callback_skip:
  "\<not> eligible b \<Longrightarrow>
   historyBlockCallback enc mh mt tpm (blocks, used) b = Inr (b, (blocks, used), True)"
  by (auto simp: historyBlockCallback_def eligible_def)

lemma callback_eligible:
  "eligible b \<Longrightarrow>
   historyBlockCallback enc mh mt tpm (blocks, used) b =
     (case blockTokenization enc mh b of
        Inl e \<Rightarrow> Inl e
      | Inr (content, contentTokens, b') \<Rightarrow>
          if mt < wrap64 (used + msgTokensOf enc tpm (Type b) contentTokens)
          then Inr (b', (blocks, used), False)
          else Inr (b', (\<lparr>BlockType = Type b, BlockContent = content\<rparr> # blocks,
                         wrap64 (used + msgTokensOf enc tpm (Type b) contentTokens)),
                    True))"
  by (auto simp: historyBlockCallback_def eligible_def msgTokensOf_def Let_def split: sum.splits)

text \<open>The walk returns what the code sends for the eligible blocks among the newest \<open>n\<close>.\<close>

lemma IterateBlocks_selects:
  assumes "IterateBlocks (historyBlockCallback enc mh mt tpm) bs (acc, used) = Inr (vis, (blocks, tot))"
  shows "\<exists>n sent. n \<le> length bs
      \<and> map (msgCost enc mh tpm) (filter eligible (take n bs)) = map Some sent
      \<and> blocks = rev (map fst sent) @ acc"
  using assms
proof (induction bs arbitrary: acc used vis)
  case Nil
  then show ?case by auto
next
  case (Cons b bs)
  show ?case
  proof (cases "eligible b")
    case False
    with Cons.prems obtain vis' where
      "IterateBlocks (historyBlockCallback enc mh mt tpm) bs (acc, used) = Inr (vis', (blocks, tot))"
      by (auto simp: callback_skip split: sum.splits)
    from Cons.IH [OF this] obtain n sent where
      "n \<le> length bs"
      "map (msgCost enc mh tpm) (filter eligible (take n bs)) = map Some sent"
      "blocks = rev (map fst sent) @ acc"
      by blast
    with False show ?thesis
      by (intro exI [of _ "Suc n"] exI [of _ sent]) auto
  next
    case True
    from Cons.prems True obtain content contentTokens b' where
      tok: "blockTokenization enc mh b = Inr (content, contentTokens, b')"
      by (auto simp: callback_eligible split: sum.splits)
    let ?m = "msgTokensOf enc tpm (Type b) contentTokens"
    let ?hb = "\<lparr>BlockType = Type b, BlockContent = content\<rparr>"
    show ?thesis
    proof (cases "mt < wrap64 (used + ?m)")
      case True
      with Cons.prems \<open>eligible b\<close> tok have "blocks = acc"
        by (auto simp: callback_eligible)
      then show ?thesis
        by (intro exI [of _ 0] exI [of _ "[]"]) auto
    next
      case False
      with Cons.prems \<open>eligible b\<close> tok obtain vis' where
        "IterateBlocks (historyBlockCallback enc mh mt tpm) bs (?hb # acc, wrap64 (used + ?m))
           = Inr (vis', (blocks, tot))"
        by (auto simp: callback_eligible split: sum.splits)
      from Cons.IH [OF this] obtain n sent where
        "n \<le> length bs"
        "map (msgCost enc mh tpm) (filter eligible (take n bs)) = map Some sent"
        "blocks = rev (map fst sent) @ ?hb # acc"
        by blast
      with \<open>eligible b\<close> tok show ?thesis
        by (intro exI [of _ "Suc n"] exI [of _ "(?hb, ?m) # sent"]) (auto simp: msgCost_Inr)
    qed
  qed
qed

lemma filter_take_rev:
  "n \<le> length xs \<Longrightarrow> filter P (take n (rev xs)) = rev (filter P (drop (length xs - n) xs))"
  by (simp add: take_rev rev_filter)

lemma getHistoryBlocksByTokens_selects:
  assumes "getHistoryBlocksByTokens history enc mh mt tpm = Inr (history', blocks, tot)"
  shows "\<exists>n sent. n \<le> length (Blocks history)
      \<and> map (msgCost enc mh tpm)
           (filter eligible (drop (length (Blocks history) - n) (Blocks history))) = map Some sent
      \<and> blocks = map fst sent"
proof -
  from assms obtain vis where
    "IterateBlocks (historyBlockCallback enc mh mt tpm) (rev (Blocks history)) ([], 0)
       = Inr (vis, (blocks, tot))"
    by (auto simp: getHistoryBlocksByTokens_def split: sum.splits)
  from IterateBlocks_selects [OF this] obtain n sent where n:
    "n \<le> length (Blocks history)"
    "map (msgCost enc mh tpm) (filter eligible (take n (rev (Blocks history)))) = map Some sent"
    "blocks = rev (map fst sent)"
    by auto
  from n(1,2) have "map (msgCost enc mh tpm)
      (rev (filter eligible (drop (length (Blocks history) - n) (Blocks history)))) = map Some sent"
    by (simp add: filter_take_rev)
  then have "rev (map (msgCost enc mh tpm)
      (rev (filter eligible (drop (length (Blocks history) - n) (Blocks history))))) = rev (map Some sent)"
    by (rule arg_cong)
  then have m: "map (msgCost enc mh tpm)
      (filter eligible (drop (length (Blocks history) - n) (Blocks history))) = map Some (rev sent)"
    by (simp add: rev_map)
  have b: "blocks = map fst (rev sent)"
    using n(3) by (simp add: rev_map)
  from n(1) m b show ?thesis
    by (intro exI [of _ n] exI [of _ "rev sent"]) simp
qed

lemma msgCost_BlockType:
  "msgCost enc mh tpm x = Some (hb, c) \<Longrightarrow> BlockType hb = Type x"
  by (auto simp: msgCost_def split: sum.splits)

lemma msgCost_not_ShellOutput:
  assumes "map (msgCost enc mh tpm) (filter eligible xs) = map Some sent"
  shows "\<forall>hb \<in> set (map fst sent). BlockType hb \<noteq> historyTypeShellOutput"
proof
  fix hb assume "hb \<in> set (map fst sent)"
  then obtain c where "(hb, c) \<in> set sent" by auto
  then have "Some (hb, c) \<in> set (map (msgCost enc mh tpm) (filter eligible xs))"
    unfolding assms by simp
  then obtain x where "x \<in> set xs" "eligible x" "msgCost enc mh tpm x = Some (hb, c)"
    by auto
  then show "BlockType hb \<noteq> historyTypeShellOutput"
    using msgCost_BlockType [of enc mh tpm x hb c] by (simp add: eligible_def)
qed





text \<open>
  The caches the code builds satisfy the condition: a new block has an empty cache,
  \<open>Append\<close> does not touch a cache, and \<open>getHistoryBlocksByTokens\<close> writes entries that
  satisfy it.
\<close>

lemma Append_keeps_accurate:
  assumes "\<forall>b \<in> set (Blocks history). entryAccurate enc b"
  shows "\<forall>b \<in> set (Blocks (Append history kind data)). entryAccurate enc b"
proof (cases "length data \<noteq> 0 \<and> 0 < length (Blocks history) \<and> Type (last (Blocks history)) = kind")
  case True
  then have ne: "Blocks history \<noteq> []" by auto
  then have "last (Blocks history) \<in> set (Blocks history)" by simp
  with assms have "entryAccurate enc (last (Blocks history))" by blast
  then have l: "entryAccurate enc
      ((last (Blocks history))\<lparr>Content := Write (Content (last (Blocks history))) data\<rparr>)"
    by (simp add: entryAccurate_def)
  have "set (butlast (Blocks history)) \<subseteq> set (Blocks history)"
    by (auto dest: in_set_butlastD)
  with assms l True show ?thesis
    by (auto simp: Append_def)
next
  case False
  with assms show ?thesis
    by (auto simp: Append_def add_def entryAccurate_def)
qed

lemma Appends_keeps_accurate:
  "\<forall>b \<in> set (Blocks history). entryAccurate enc b \<Longrightarrow>
   \<forall>b \<in> set (Blocks (Appends history calls)). entryAccurate enc b"
proof (induction calls arbitrary: history)
  case Nil
  then show ?case by simp
next
  case (Cons c calls)
  obtain k d where c: "c = (k, d)" by (cases c)
  from Cons.IH [OF Append_keeps_accurate [OF Cons.prems]] show ?case
    by (simp add: c)
qed










subsection \<open>The tokenization cache\<close>

text \<open>
  A block without its cache, a history without its caches, and the condition under which
  the cache of a block cannot be told from an empty one: the entry for the encoder, when
  its recorded length is the content's size, holds what the cache miss would compute.
\<close>

definition clearBlock :: "HistoryBuffer \<Rightarrow> HistoryBuffer" where
  "clearBlock block = block\<lparr>Tokenizations := Map.empty\<rparr>"

definition clearTokenizations :: "ShellHistory \<Rightarrow> ShellHistory" where
  "clearTokenizations history = history\<lparr>Blocks := map clearBlock (Blocks history)\<rparr>"

definition cacheConsistent :: "Tiktoken \<Rightarrow> int \<Rightarrow> HistoryBuffer \<Rightarrow> bool" where
  "cacheConsistent encoder maxHistoryBlockTokens block =
     (case GetTokenization block (EncoderName encoder) (Size (Content block)) of
        None \<Rightarrow> True
      | Some (content, contentTokens) \<Rightarrow>
          tokenizeContent encoder maxHistoryBlockTokens (Content block) = Inr (content, contentTokens))"

definition withoutBlock ::
  "error + (HistoryBuffer \<times> 's \<times> bool) \<Rightarrow> error + ('s \<times> bool)" where
  "withoutBlock r = map_sum id snd r"

lemma clearBlock_simps [simp]:
  "Type (clearBlock b) = Type b" "Content (clearBlock b) = Content b"
  "GetTokenization (clearBlock b) name len = None"
  by (simp_all add: clearBlock_def GetTokenization_def)

lemma blockTokenization_consistent:
  assumes "cacheConsistent enc mh b"
  shows "map_sum id (\<lambda>(c, t, b'). (c, t)) (blockTokenization enc mh b) = tokenizeContent enc mh (Content b)"
  using assms
  by (auto simp: cacheConsistent_def blockTokenization_def Let_def split: option.splits sum.splits)

lemma blockTokenization_clear:
  "map_sum id (\<lambda>(c, t, b'). (c, t)) (blockTokenization enc mh (clearBlock b)) = tokenizeContent enc mh (Content b)"
  by (auto simp: blockTokenization_def Let_def split: option.splits sum.splits)

lemma callback_cache_insensitive:
  assumes "cacheConsistent enc mh b"
  shows "withoutBlock (historyBlockCallback enc mh mt tpm s b) =
         withoutBlock (historyBlockCallback enc mh mt tpm s (clearBlock b))"
proof -
  obtain blocks used where s: "s = (blocks, used)" by (cases s)
  have e: "eligible (clearBlock b) = eligible b" by (simp add: eligible_def)
  show ?thesis
  proof (cases "eligible b")
    case False
    then show ?thesis using e by (simp add: s callback_skip withoutBlock_def)
  next
    case True
    have "map_sum id (\<lambda>(c, t, b'). (c, t)) (blockTokenization enc mh b) =
          map_sum id (\<lambda>(c, t, b'). (c, t)) (blockTokenization enc mh (clearBlock b))"
      using blockTokenization_consistent [OF assms] blockTokenization_clear by simp
    then show ?thesis
      using True e
      by (cases "blockTokenization enc mh b"; cases "blockTokenization enc mh (clearBlock b)")
         (auto simp: s callback_eligible withoutBlock_def)
  qed
qed

lemma IterateBlocks_cache_insensitive:
  assumes "\<forall>b \<in> set bs. cacheConsistent enc mh b"
  shows "map_sum id snd (IterateBlocks (historyBlockCallback enc mh mt tpm) bs s) =
         map_sum id snd (IterateBlocks (historyBlockCallback enc mh mt tpm) (map clearBlock bs) s)"
  using assms
proof (induction bs arbitrary: s)
  case Nil
  then show ?case by simp
next
  case (Cons b bs)
  let ?cb = "historyBlockCallback enc mh mt tpm"
  from Cons.prems have c: "withoutBlock (?cb s b) = withoutBlock (?cb s (clearBlock b))"
    by (simp add: callback_cache_insensitive)
  show ?case
  proof (cases "?cb s b")
    case (Inl e)
    with c show ?thesis
      by (cases "?cb s (clearBlock b)") (auto simp: withoutBlock_def)
  next
    case (Inr r)
    obtain b' s' cont where r: "r = (b', s', cont)" by (cases r)
    from c Inr r obtain b'' where r': "?cb s (clearBlock b) = Inr (b'', s', cont)"
      by (cases "?cb s (clearBlock b)") (auto simp: withoutBlock_def)
    from Cons.prems have "\<forall>b \<in> set bs. cacheConsistent enc mh b" by simp
    from Cons.IH [OF this, of s'] show ?thesis
      using Inr r r'
      by (cases "IterateBlocks ?cb bs s'"; cases "IterateBlocks ?cb (map clearBlock bs) s'") auto
  qed
qed

lemma SetTokenization_consistent:
  "tokenizeContent enc mh (Content b) = Inr (c, t) \<Longrightarrow>
   cacheConsistent enc mh (SetTokenization b (EncoderName enc) (Size (Content b)) t c)"
  by (simp add: cacheConsistent_def SetTokenization_def GetTokenization_def)

lemma blockTokenization_preserves:
  assumes "blockTokenization enc mh b = Inr (c, t, b')" and "cacheConsistent enc mh b"
  shows "cacheConsistent enc mh b' \<and> clearBlock b' = clearBlock b"
  using assms SetTokenization_consistent [of enc mh b]
  by (auto simp: blockTokenization_def Let_def clearBlock_def SetTokenization_def
           split: option.splits sum.splits)

lemma callback_preserves:
  assumes "historyBlockCallback enc mh mt tpm s b = Inr (b', s', cont)" and "cacheConsistent enc mh b"
  shows "cacheConsistent enc mh b' \<and> clearBlock b' = clearBlock b"
proof -
  obtain blocks used where s: "s = (blocks, used)" by (cases s)
  show ?thesis
  proof (cases "eligible b")
    case False
    with assms show ?thesis by (simp add: s callback_skip)
  next
    case True
    with assms(1) obtain c t where "blockTokenization enc mh b = Inr (c, t, b')"
      by (auto simp: s callback_eligible split: sum.splits if_splits)
    from blockTokenization_preserves [OF this assms(2)] show ?thesis .
  qed
qed

lemma IterateBlocks_preserves:
  assumes "IterateBlocks (historyBlockCallback enc mh mt tpm) bs s = Inr (vis, s')"
      and "\<forall>b \<in> set bs. cacheConsistent enc mh b"
  shows "(\<forall>b \<in> set vis. cacheConsistent enc mh b) \<and> map clearBlock vis = map clearBlock bs"
  using assms
proof (induction bs arbitrary: s vis)
  case Nil
  then show ?case by simp
next
  case (Cons b bs)
  let ?cb = "historyBlockCallback enc mh mt tpm"
  from Cons.prems(1) obtain b' s1 cont where cb: "?cb s b = Inr (b', s1, cont)"
    by (auto split: sum.splits)
  from Cons.prems(2) have cb': "cacheConsistent enc mh b' \<and> clearBlock b' = clearBlock b"
    using callback_preserves [OF cb] by simp
  show ?case
  proof (cases cont)
    case False
    with Cons.prems cb cb' show ?thesis by auto
  next
    case True
    with Cons.prems(1) cb obtain vis' where
      it: "IterateBlocks ?cb bs s1 = Inr (vis', s')" and v: "vis = b' # vis'"
      by (auto split: sum.splits)
    from Cons.prems(2) have "\<forall>b \<in> set bs. cacheConsistent enc mh b" by simp
    from Cons.IH [OF it this] cb' v show ?thesis by simp
  qed
qed

text \<open>
  Claim C9. When every cached entry whose recorded length is the content's current size
  holds what a cache miss computes for that content with this encoder and this
  \<open>maxHistoryBlockTokens\<close>, \<open>getHistoryBlocksByTokens\<close> returns the same blocks and the same
  token total (or fails the same way) as on the history with empty caches; entries with
  another recorded length are not used, whatever they hold. Empty caches satisfy the
  condition, and a call leaves behind caches that satisfy it again, on unchanged contents.
\<close>

theorem getHistoryBlocksByTokens_cache_insensitive:
  assumes "\<forall>b \<in> set (Blocks history). cacheConsistent encoder maxHistoryBlockTokens b"
  shows "map_sum id snd (getHistoryBlocksByTokens history encoder maxHistoryBlockTokens maxTokens tokensPerMessage) =
         map_sum id snd (getHistoryBlocksByTokens (clearTokenizations history) encoder maxHistoryBlockTokens maxTokens tokensPerMessage)
       \<and> (\<forall>b \<in> set (Blocks (clearTokenizations history)). cacheConsistent encoder maxHistoryBlockTokens b)
       \<and> (\<forall>history' blocks usedTokens.
            getHistoryBlocksByTokens history encoder maxHistoryBlockTokens maxTokens tokensPerMessage
              = Inr (history', blocks, usedTokens) \<longrightarrow>
            (\<forall>b \<in> set (Blocks history'). cacheConsistent encoder maxHistoryBlockTokens b)
            \<and> clearTokenizations history' = clearTokenizations history)"
proof -
  let ?cb = "historyBlockCallback encoder maxHistoryBlockTokens maxTokens tokensPerMessage"
  from assms have a: "\<forall>b \<in> set (rev (Blocks history)). cacheConsistent encoder maxHistoryBlockTokens b"
    by simp
  have 1: "map_sum id snd (getHistoryBlocksByTokens history encoder maxHistoryBlockTokens maxTokens tokensPerMessage) =
         map_sum id snd (getHistoryBlocksByTokens (clearTokenizations history) encoder maxHistoryBlockTokens maxTokens tokensPerMessage)"
    using IterateBlocks_cache_insensitive [OF a, of maxTokens tokensPerMessage "([], 0)"]
    by (cases "IterateBlocks ?cb (rev (Blocks history)) ([], 0)";
        cases "IterateBlocks ?cb (map clearBlock (rev (Blocks history))) ([], 0)")
       (auto simp: getHistoryBlocksByTokens_def clearTokenizations_def rev_map)
  have 2: "\<forall>b \<in> set (Blocks (clearTokenizations history)). cacheConsistent encoder maxHistoryBlockTokens b"
    by (auto simp: clearTokenizations_def cacheConsistent_def)
  have 3: "(\<forall>b \<in> set (Blocks history'). cacheConsistent encoder maxHistoryBlockTokens b)
            \<and> clearTokenizations history' = clearTokenizations history"
    if g: "getHistoryBlocksByTokens history encoder maxHistoryBlockTokens maxTokens tokensPerMessage
              = Inr (history', blocks, usedTokens)" for history' blocks usedTokens
  proof -
    from g obtain vis where
      it: "IterateBlocks ?cb (rev (Blocks history)) ([], 0) = Inr (vis, (blocks, usedTokens))"
      and h': "history' = history\<lparr>Blocks := rev vis\<rparr>"
      by (auto simp: getHistoryBlocksByTokens_def split: sum.splits)
    from IterateBlocks_preserves [OF it a]
    have "(\<forall>b \<in> set vis. cacheConsistent encoder maxHistoryBlockTokens b)"
      and "map clearBlock vis = map clearBlock (rev (Blocks history))" by auto
    then show ?thesis
      using h' by (simp add: clearTokenizations_def rev_map [symmetric])
  qed
  from 1 2 3 show ?thesis by blast
qed

theorem getHistoryBlocksByTokens_cache_insensitive_witness:
  "list_all (cacheConsistent byteEncoder 1024)
     [\<lparr>Type = historyTypeShellInput, Content = Write NewShellBuffer ''ls'',
       Tokenizations = Map.empty(''bytes'' \<mapsto> \<lparr>InputLength = 2, NumTokens = 2, Data = ''ls''\<rparr>)\<rparr>,
      \<lparr>Type = historyTypeLLMOutput, Content = Write NewShellBuffer ''okay'',
       Tokenizations = Map.empty(''bytes'' \<mapsto> \<lparr>InputLength = 2, NumTokens = 7, Data = ''stale''\<rparr>)\<rparr>]
   \<and> map_sum id snd (getHistoryBlocksByTokens
        \<lparr>Blocks =
          [\<lparr>Type = historyTypeShellInput, Content = Write NewShellBuffer ''ls'',
            Tokenizations = Map.empty(''bytes'' \<mapsto> \<lparr>InputLength = 2, NumTokens = 2, Data = ''ls''\<rparr>)\<rparr>,
           \<lparr>Type = historyTypeLLMOutput, Content = Write NewShellBuffer ''okay'',
            Tokenizations = Map.empty(''bytes'' \<mapsto> \<lparr>InputLength = 2, NumTokens = 7, Data = ''stale''\<rparr>)\<rparr>]\<rparr>
        byteEncoder 1024 100 3) =
     Inr ([\<lparr>BlockType = historyTypeShellInput, BlockContent = ''ls''\<rparr>,
           \<lparr>BlockType = historyTypeLLMOutput, BlockContent = ''okay''\<rparr>], 25)"
proof -
  let ?bs = "[\<lparr>Type = historyTypeShellInput, Content = Write NewShellBuffer ''ls'',
       Tokenizations = Map.empty(''bytes'' \<mapsto> \<lparr>InputLength = 2, NumTokens = 2, Data = ''ls''\<rparr>)\<rparr>,
      \<lparr>Type = historyTypeLLMOutput, Content = Write NewShellBuffer ''okay'',
       Tokenizations = Map.empty(''bytes'' \<mapsto> \<lparr>InputLength = 2, NumTokens = 7, Data = ''stale''\<rparr>)\<rparr>]"
  have c: "list_all (cacheConsistent byteEncoder 1024) ?bs"
    by code_simp
  then have "\<forall>b \<in> set (Blocks \<lparr>Blocks = ?bs\<rparr>). cacheConsistent byteEncoder 1024 b"
    by (simp only: list_all_iff ShellHistory.simps)
  from getHistoryBlocksByTokens_cache_insensitive [OF this, of 100 3]
  have e: "map_sum id snd (getHistoryBlocksByTokens \<lparr>Blocks = ?bs\<rparr> byteEncoder 1024 100 3) =
        map_sum id snd (getHistoryBlocksByTokens (clearTokenizations \<lparr>Blocks = ?bs\<rparr>) byteEncoder 1024 100 3)"
    by blast
  have "map_sum id snd (getHistoryBlocksByTokens (clearTokenizations \<lparr>Blocks = ?bs\<rparr>) byteEncoder 1024 100 3) =
     Inr ([\<lparr>BlockType = historyTypeShellInput, BlockContent = ''ls''\<rparr>,
           \<lparr>BlockType = historyTypeLLMOutput, BlockContent = ''okay''\<rparr>], 25)"
    by code_simp
  with e c show ?thesis by simp
qed

text \<open>
  The claim as stated, for entries left by any earlier call with the same encoder, fails:
  the entry an earlier call with \<open>maxHistoryBlockTokens = 1\<close> leaves for a block is used by
  a later call with \<open>maxHistoryBlockTokens = 3\<close>, which returns the content cut to one
  token and a total of 10, where the call on empty caches returns the whole content and
  a total of 12.
\<close>

theorem getHistoryBlocksByTokens_cache_counterexample:
  "(case getHistoryBlocksByTokens (Append NewShellHistory historyTypeLLMOutput ''abc'')
           byteEncoder 1 100 0 of
      Inl e \<Rightarrow> Inl e
    | Inr (history', blocks, usedTokens) \<Rightarrow>
        map_sum id snd (getHistoryBlocksByTokens history' byteEncoder 3 100 0)) =
     Inr ([\<lparr>BlockType = historyTypeLLMOutput, BlockContent = ''a''\<rparr>], 10)
   \<and> map_sum id snd
       (getHistoryBlocksByTokens (Append NewShellHistory historyTypeLLMOutput ''abc'')
          byteEncoder 3 100 0) =
     Inr ([\<lparr>BlockType = historyTypeLLMOutput, BlockContent = ''abc''\<rparr>], 12)"
  by code_simp

text \<open>
  The recorded length is the only check. With the buffer of the specification, a later
  \<open>Append\<close> can change a block's content and keep its size (here a backspace and a byte);
  the entry cached before it is then still used.
\<close>

lemma getHistoryBlocksByTokens_stale_entry:
  "(case getHistoryBlocksByTokens (Append NewShellHistory historyTypePrompt ''ab'')
           byteEncoder 8 100 0 of
      Inl e \<Rightarrow> Inl e
    | Inr (history', blocks, usedTokens) \<Rightarrow>
        map_sum id snd
          (getHistoryBlocksByTokens (Append history' historyTypePrompt [CHR 0x08, CHR ''c''])
             byteEncoder 8 100 0)) =
     Inr ([\<lparr>BlockType = historyTypePrompt, BlockContent = ''ab''\<rparr>], 6)
   \<and> map_sum id snd
       (getHistoryBlocksByTokens
          (Append (Append NewShellHistory historyTypePrompt ''ab'') historyTypePrompt
             [CHR 0x08, CHR ''c''])
          byteEncoder 8 100 0) =
     Inr ([\<lparr>BlockType = historyTypePrompt, BlockContent = ''ac''\<rparr>], 6)"
  by code_simp

section \<open>The PS1 protocol\<close>

definition PROMPT_PREFIX :: string where
  "PROMPT_PREFIX = [CHR 0x1B, CHR ''Q'']"

definition PROMPT_SUFFIX :: string where
  "PROMPT_SUFFIX = [CHR 0x1B, CHR ''R'']"

text \<open>The UTF-8 encoding of the fish emoji (U+1F420).\<close>

definition EMOJI_DEFAULT :: string where
  "EMOJI_DEFAULT = [CHR 0xF0, CHR 0x9F, CHR 0x90, CHR 0xA0]"

text \<open>
  The two regular expressions of the source have the shape \<open>lit ([0-9]+) lit'\<close>: a
  literal, a group of one or more decimal digits, a literal that does not begin with a
  digit. A value of \<open>Regexp\<close> holds the two literals. Since the byte after the digits must
  begin \<open>lit'\<close>, the group is the maximal run of digits, and a match can only start where
  \<open>lit\<close> starts; the leftmost non-overlapping matches of Go's \<open>regexp\<close> are found by trying
  each position from the left and continuing behind a match.
\<close>

record Regexp =
  litBefore :: string
  litAfter :: string

definition ps1Regex :: Regexp where
  "ps1Regex = \<lparr>litBefore = '' '', litAfter = PROMPT_SUFFIX\<rparr>"

definition ps1FullRegex :: Regexp where
  "ps1FullRegex = \<lparr>litBefore = EMOJI_DEFAULT @ '' '', litAfter = PROMPT_SUFFIX\<rparr>"

definition HasPrefix :: "string \<Rightarrow> string \<Rightarrow> bool" where
  "HasPrefix s p = (take (length p) s = p)"

text \<open>A match that starts at the first byte: the digits of the group and the rest of the input.\<close>

definition match_at :: "Regexp \<Rightarrow> string \<Rightarrow> (string \<times> string) option" where
  "match_at re s =
     (if HasPrefix s (litBefore re) then
        (let r = drop (length (litBefore re)) s;
             ds = takeWhile is_digit r;
             r' = dropWhile is_digit r in
         if ds \<noteq> [] \<and> HasPrefix r' (litAfter re) then Some (ds, drop (length (litAfter re)) r')
         else None)
      else None)"

lemma match_at_shorter:
  "match_at re s = Some (ds, rest) \<Longrightarrow> length rest < length s"
proof -
  assume a: "match_at re s = Some (ds, rest)"
  let ?r = "drop (length (litBefore re)) s"
  from a have ds: "takeWhile is_digit ?r \<noteq> []"
    and rest: "rest = drop (length (litAfter re)) (dropWhile is_digit ?r)"
    by (auto simp: match_at_def Let_def split: if_splits)
  have "length (takeWhile is_digit ?r) + length (dropWhile is_digit ?r) = length ?r"
    by (metis length_append takeWhile_dropWhile_id)
  with ds have "length (dropWhile is_digit ?r) < length ?r"
    by (cases "takeWhile is_digit ?r") auto
  with rest show ?thesis by auto
qed

text \<open>\<open>regex.FindAllStringSubmatch(data, -1)\<close>: for every match, the text of group 1.\<close>

function FindAllStringSubmatch :: "Regexp \<Rightarrow> string \<Rightarrow> string list" where
  "FindAllStringSubmatch re [] = []"
| "FindAllStringSubmatch re (c # cs) =
     (case match_at re (c # cs) of
        Some (ds, rest) \<Rightarrow> ds # FindAllStringSubmatch re rest
      | None \<Rightarrow> FindAllStringSubmatch re cs)"
  by pat_completeness auto
termination
  by (relation "measure (\<lambda>(re, s). length s)") (auto dest: match_at_shorter)

text \<open>
  \<open>regex.ReplaceAllString(data, repl)\<close> for a replacement without \<open>$\<close> (the source passes
  the icon or the empty string), which Go inserts literally.
\<close>

function ReplaceAllString :: "Regexp \<Rightarrow> string \<Rightarrow> string \<Rightarrow> string" where
  "ReplaceAllString re [] repl = []"
| "ReplaceAllString re (c # cs) repl =
     (case match_at re (c # cs) of
        Some (ds, rest) \<Rightarrow> repl @ ReplaceAllString re rest repl
      | None \<Rightarrow> c # ReplaceAllString re cs repl)"
  by pat_completeness auto
termination
  by (relation "measure (\<lambda>(re, s, repl). length s)") (auto dest: match_at_shorter)

text \<open>\<open>strings.ReplaceAll(s, old, new)\<close> for a non-empty \<open>old\<close>.\<close>

function ReplaceAll :: "string \<Rightarrow> string \<Rightarrow> string \<Rightarrow> string" where
  "ReplaceAll [] old new = []"
| "ReplaceAll (c # cs) old new =
     (if old \<noteq> [] \<and> HasPrefix (c # cs) old
      then new @ ReplaceAll (drop (length old) (c # cs)) old new
      else c # ReplaceAll cs old new)"
  by pat_completeness auto
termination
  by (relation "measure (\<lambda>(s, old, new). length s)") auto

text \<open>
  \<open>strconv.Atoi\<close> on a non-empty string of decimal digits (group 1 of a match): the
  value, or the largest \<open>int\<close> together with a range error when the value does not fit;
  \<open>ParsePS1\<close> logs the error and keeps the value.
\<close>

definition Atoi :: "string \<Rightarrow> int" where
  "Atoi s = min (digits_value s) (2 ^ 63 - 1)"

definition ParsePS1 :: "string \<Rightarrow> Regexp \<Rightarrow> string \<Rightarrow> int \<times> int \<times> string" where
  "ParsePS1 data regex currIcon =
     (let matches = FindAllStringSubmatch regex data in
      if length matches = 0 then (0, 0, data)
      else
        let (lastStatus, prompts) =
              foldl (\<lambda>(lastStatus, prompts) match. (Atoi match, prompts + 1)) (0, 0) matches;
            cleaned = ReplaceAllString regex data currIcon;
            cleaned = ReplaceAll cleaned PROMPT_PREFIX [] in
        (lastStatus, prompts, cleaned))"

text \<open>The method \<open>ShellState.ParsePS1\<close>; its argument is \<open>Config.ShellLeavePromptAlone\<close>.\<close>

definition ShellState_ParsePS1 :: "bool \<Rightarrow> string \<Rightarrow> int \<times> int \<times> string" where
  "ShellState_ParsePS1 shellLeavePromptAlone data =
     (let regex = (if shellLeavePromptAlone then ps1Regex else ps1FullRegex);
          currIcon = (if \<not> shellLeavePromptAlone then EMOJI_DEFAULT else []) in
      ParsePS1 data regex currIcon)"

text \<open>
  \<open>FilterChildOut\<close>: \<open>ZSH_CLEAR_REGEX\<close> is anchored at the start and is a literal, one or
  more spaces, and the literal \<open>CR SP CR\<close>.
\<close>

definition FilterChildOut :: "string \<Rightarrow> bool" where
  "FilterChildOut data =
     (let lit = [CHR 0x1B, CHR ''['', CHR ''1'', CHR ''m'', CHR 0x1B, CHR ''['', CHR ''3'', CHR ''m'',
                 CHR ''%'', CHR 0x1B, CHR ''['', CHR ''2'', CHR ''3'', CHR ''m'',
                 CHR 0x1B, CHR ''['', CHR ''1'', CHR ''m'', CHR 0x1B, CHR ''['', CHR ''0'', CHR ''m''];
          r = drop (length lit) data in
      0 < length data \<and> HasPrefix data [CHR 0x1B, CHR ''['', CHR ''1'', CHR ''m'']
      \<and> HasPrefix data lit
      \<and> takeWhile (\<lambda>c. c = CHR 0x20) r \<noteq> []
      \<and> HasPrefix (dropWhile (\<lambda>c. c = CHR 0x20) r) [CHR 0x0D, CHR 0x20, CHR 0x0D])"

section \<open>The multiplexer\<close>

text \<open>
  Modelled from the spec: \<open>incompleteAnsiSequence\<close> is not among the source files; only
  its test is. The specification: true iff the bytes end in the middle of a CSI sequence,
  that is, with an \<open>ESC\<close> or an \<open>ESC [\<close> that has no final byte yet.
\<close>

definition incompleteAnsiSequence :: "string \<Rightarrow> bool" where
  "incompleteAnsiSequence data =
     (if CHR 0x1B \<in> set data then
        (case rev (takeWhile (\<lambda>c. c \<noteq> CHR 0x1B) (rev data)) of
           [] \<Rightarrow> True
         | b # ps \<Rightarrow> b = CHR ''['' \<and> list_all (\<lambda>c. \<not> is_csi_final c) ps)
      else False)"

text \<open>
  \<open>unicode.IsUpper(rune(data[0]))\<close>: the conversion makes the byte a code point of
  Latin-1, whose upper-case letters are \<open>A\<close>-\<open>Z\<close>, \<open>0xC0\<close>-\<open>0xD6\<close> and \<open>0xD8\<close>-\<open>0xDE\<close>.
\<close>

definition unicode_IsUpper :: "char \<Rightarrow> bool" where
  "unicode_IsUpper c =
     ((0x41 \<le> byte c \<and> byte c \<le> 0x5A) \<or> (0xC0 \<le> byte c \<and> byte c \<le> 0xD6)
      \<or> (0xD8 \<le> byte c \<and> byte c \<le> 0xDE))"

text \<open>Decimal formatting (\<open>%d\<close>).\<close>

function nat_to_dec :: "nat \<Rightarrow> string" where
  "nat_to_dec n =
     (if n < 10 then [char_of (48 + n)] else nat_to_dec (n div 10) @ [char_of (48 + n mod 10)])"
  by pat_completeness auto
termination
  by (relation "measure id") auto

declare nat_to_dec.simps [simp del]

definition int_to_dec :: "int \<Rightarrow> string" where
  "int_to_dec i = (if i < 0 then CHR ''-'' # nat_to_dec (nat (- i)) else nat_to_dec (nat i))"

datatype state = stateNormal | stateShell | statePrompting | statePromptResponse

record ShellColorScheme =
  ColorPrompt :: string
  ColorError :: string
  ColorCommand :: string
  ColorAnswer :: string
  ColorAnswerHighlight :: string

text \<open>The request handed to \<open>CompletionRoutine\<close> (the fields the multiplexer computes).\<close>

record CompletionRequest =
  RequestPrompt :: string
  RequestModel :: string
  RequestMaxTokens :: int
  RequestHistoryBlocks :: "HistoryBlock list"
  RequestSystemMessage :: string

text \<open>
  What the multiplexer takes from outside: the configuration, the tokenizer (the value
  \<open>getPromptEncoder\<close> caches), \<open>NumTokensPerMessageForModel\<close>, the result of
  \<open>PromptLibrary.GetPrompt\<close> (the error text or the system message), and the bytes a
  \<open>ShellBuffer\<close> returns for the terminal from \<open>Write\<close> and \<open>Clear\<close>, as a function of the
  buffer before and after.
\<close>

record Env =
  ShellLeavePromptAlone :: bool
  ShellMaxHistoryBlockTokens :: int
  ShellMaxResponseTokens :: int
  ShellPromptModel :: string
  PromptEncoder :: Tiktoken
  NumTokensPerMessageForModel :: "string \<Rightarrow> int"
  GetPrompt :: "string + string"
  ShellUpdate :: "ShellBuffer \<Rightarrow> ShellBuffer \<Rightarrow> string"

text \<open>
  \<open>ShellState\<close>. The writers \<open>ParentOut\<close> and \<open>ChildIn\<close> are the bytes written to them so
  far; \<open>PrintErrorChan\<close> and \<open>CursorPosChan\<close> are the values waiting in the channels (for
  \<open>CursorPosChan\<close>: the replies that arrive before a wait on it ends);
  \<open>PromptResponseCancel\<close> says whether a cancel function is stored, \<open>CancelCalls\<close> counts
  its invocations; \<open>Requests\<close> are the requests for which \<open>CompletionRoutine\<close> was started;
  \<open>childOutBuffer\<close> is the local variable of \<open>Mux\<close>; \<open>Stopped\<close> says that \<open>Mux\<close> has
  returned. \<open>Prompt\<close> and \<open>Command\<close> are never nil after \<open>ShellMultiplexer\<close> has set them.
\<close>

record ShellState =
  State :: state
  PromptSuffixCounter :: int
  PromptMaxTokens :: int
  History :: ShellHistory
  Prompt :: ShellBuffer
  Command :: ShellBuffer
  PromptResponseCancel :: bool
  CancelCalls :: nat
  TerminalWidth :: int
  Color :: ShellColorScheme
  parentInBuffer :: string
  ParentOut :: string
  ChildIn :: string
  PrintErrorChan :: "string list"
  CursorPosChan :: "(int \<times> int) list"
  Requests :: "CompletionRequest list"
  childOutBuffer :: string
  Stopped :: bool

definition setState :: "ShellState \<Rightarrow> state \<Rightarrow> ShellState" where
  "setState this st = this\<lparr>State := st\<rparr>"

definition writeParentOut :: "ShellState \<Rightarrow> string \<Rightarrow> ShellState" where
  "writeParentOut this bs = this\<lparr>ParentOut := ParentOut this @ bs\<rparr>"

definition writeChildIn :: "ShellState \<Rightarrow> string \<Rightarrow> ShellState" where
  "writeChildIn this bs = this\<lparr>ChildIn := ChildIn this @ bs\<rparr>"

definition PrintError :: "ShellState \<Rightarrow> string \<Rightarrow> ShellState" where
  "PrintError this err = this\<lparr>PrintErrorChan := PrintErrorChan this @ [err]\<rparr>"

definition cancelPromptResponse :: "ShellState \<Rightarrow> ShellState" where
  "cancelPromptResponse this =
     (if PromptResponseCancel this
      then this\<lparr>CancelCalls := CancelCalls this + 1, PromptResponseCancel := False\<rparr>
      else this)"

definition ESC_CUP :: string where
  "ESC_CUP = [CHR 0x1B, CHR ''['', CHR ''6'', CHR ''n'']"

definition CLEAR_SCREEN :: string where
  "CLEAR_SCREEN = [CHR 0x1B, CHR ''['', CHR ''2'', CHR ''J'', CHR 0x1B, CHR ''['', CHR ''H'']"

text \<open>
  \<open>GetCursorPosition\<close> writes the request and waits; with no reply within five seconds
  it panics, otherwise it drains the channel and returns the newest reply.
\<close>

definition GetCursorPosition :: "ShellState \<Rightarrow> error + (ShellState \<times> int \<times> int)" where
  "GetCursorPosition this =
     (let this = writeParentOut this ESC_CUP in
      case CursorPosChan this of
        [] \<Rightarrow> Inl CursorPositionTimeout
      | pos # later \<Rightarrow> Inr (this\<lparr>CursorPosChan := []\<rparr>, last (pos # later)))"

definition AssembleChat ::
  "Env \<Rightarrow> ShellState \<Rightarrow> string \<Rightarrow> string \<Rightarrow> int \<Rightarrow>
   error + (ShellHistory \<times> string \<times> HistoryBlock list)" where
  "AssembleChat env this prompt sysMsg reserveForAnswer =
     (let totalTokens = PromptMaxTokens this;
          maxPromptTokens = 512;
          maxHistoryBlockTokens = ShellMaxHistoryBlockTokens env;
          maxCombinedPromptTokens = wrap64 (totalTokens - reserveForAnswer) in
      assembleChat (NumTokensPerMessageForModel env) prompt sysMsg [] (History this)
        (ShellPromptModel env) (PromptEncoder env)
        maxPromptTokens maxHistoryBlockTokens maxCombinedPromptTokens)"

text \<open>
  \<open>SendPrompt\<close>. The two error returns put the error on \<open>PrintErrorChan\<close>; a panic inside
  \<open>AssembleChat\<close> is \<open>Inl\<close>. Starting \<open>CompletionRoutine\<close> is recorded in \<open>Requests\<close>.
\<close>

definition SendPrompt :: "Env \<Rightarrow> ShellState \<Rightarrow> error + ShellState" where
  "SendPrompt env this =
     (let this = setState this statePromptResponse;
          this = this\<lparr>PromptResponseCancel := True\<rparr> in
      case GetPrompt env of
        Inl err \<Rightarrow>
          Inr (PrintError this (''Could not retrieve prompting system message: '' @ err))
      | Inr sysMsg \<Rightarrow>
          (let promptStr = String (Prompt this);
               tokensReservedForAnswer = ShellMaxResponseTokens env in
           case AssembleChat env this promptStr sysMsg tokensReservedForAnswer of
             Inl (SystemMessageTooLong usedTokens maxTokens) \<Rightarrow>
               Inr (PrintError this
                      (''System message too long, '' @ int_to_dec usedTokens
                         @ '' tokens, max is '' @ int_to_dec maxTokens))
           | Inl e \<Rightarrow> Inl e
           | Inr (history', promptStr, historyBlocks) \<Rightarrow>
               (let this = this\<lparr>History := history'\<rparr>;
                    request = \<lparr>RequestPrompt = promptStr,
                               RequestModel = ShellPromptModel env,
                               RequestMaxTokens = tokensReservedForAnswer,
                               RequestHistoryBlocks = historyBlocks,
                               RequestSystemMessage = sysMsg\<rparr>;
                    this = this\<lparr>History := Append (History this) historyTypePrompt (String (Prompt this))\<rparr>;
                    this = this\<lparr>Requests := Requests this @ [request]\<rparr> in
                Inr (this\<lparr>Prompt := Clear (Prompt this)\<rparr>))))"

text \<open>The index of the first carriage return (\<open>bytes.Index(data, []byte{'\r'})\<close>).\<close>

definition indexCR :: "string \<Rightarrow> nat" where
  "indexCR data = length (takeWhile (\<lambda>c. c \<noteq> CHR 0x0D) data)"

text \<open>
  \<open>ParentInput\<close>, one function per case of its \<open>switch\<close>. Each returns the state and the
  leftover; \<open>nil\<close> is the empty leftover. \<open>data\<close> is not empty when \<open>ParentInputLoop\<close>
  calls it; on empty data the first \<open>data[0]\<close> panics.
\<close>

definition ParentInput_PromptResponse :: "ShellState \<Rightarrow> string \<Rightarrow> ShellState \<times> string" where
  "ParentInput_PromptResponse this data =
     (if hd data = CHR 0x03 \<or> last data = CHR 0x03 then
        (let this = cancelPromptResponse this;
             this = setState this stateNormal in
         if hd data = CHR 0x03 then (this, tl data) else (this, butlast data))
      else (this, data))"

definition ParentInput_Normal :: "ShellState \<Rightarrow> string \<Rightarrow> error + (ShellState \<times> string)" where
  "ParentInput_Normal this data =
     (if hd data = CHR 0x03 then
        (let this = this\<lparr>Command := Clear (Command this)\<rparr>;
             this = this\<lparr>Prompt := Clear (Prompt this)\<rparr>;
             this = setState this stateNormal;
             this = writeChildIn this [hd data] in
         Inr (this, tl data))
      else if hd data = CHR 0x0C then
        (let this = writeParentOut this CLEAR_SCREEN;
             this = this\<lparr>Command := Clear (Command this)\<rparr>;
             this = this\<lparr>Prompt := Clear (Prompt this)\<rparr>;
             this = writeChildIn this [CHR 0x0D] in
         Inr (this, tl data))
      else if unicode_IsUpper (hd data) then
        (let this = setState this statePrompting;
             this = this\<lparr>Prompt := Clear (Prompt this)\<rparr>;
             this = this\<lparr>Prompt := Write (Prompt this) data\<rparr>;
             promptColor = ColorPrompt (Color this);
             this = this\<lparr>Prompt := SetColor (Prompt this) promptColor\<rparr>;
             this = writeParentOut this (promptColor @ data) in
         case GetCursorPosition this of
           Inl e \<Rightarrow> Inl e
         | Inr (this, row, col) \<Rightarrow>
             (let this = this\<lparr>Prompt := SetPromptLength (Prompt this)
                           (wrap64 (wrap64 (col - 1) - Size (Prompt this)))\<rparr> in
              Inr (this, tl data)))
      else if hd data = CHR 0x09 then
        Inr (writeChildIn this [hd data], tl data)
      else if hd data = CHR 0x0D then
        Inr (writeChildIn this data, tl data)
      else
        (let this = this\<lparr>Command := NewShellBuffer\<rparr>;
             this = this\<lparr>Command := Write (Command this) data\<rparr>;
             this = (if 0 < Size (Command this) then setState this stateShell else this);
             this = writeParentOut this (ColorCommand (Color this));
             this = writeChildIn this data in
         Inr (this, [])))"

definition ParentInput_Prompting :: "Env \<Rightarrow> ShellState \<Rightarrow> string \<Rightarrow> error + (ShellState \<times> string)" where
  "ParentInput_Prompting env this data =
     (if CHR 0x0D \<in> set data then
        (let index = indexCR data;
             toAdd = take index data;
             toPrint = ShellUpdate env (Prompt this) (Write (Prompt this) toAdd);
             this = this\<lparr>Prompt := Write (Prompt this) toAdd\<rparr>;
             this = writeParentOut this toPrint;
             this = writeParentOut this [CHR 0x0A, CHR 0x0D] in
         case SendPrompt env this of
           Inl e \<Rightarrow> Inl e
         | Inr this \<Rightarrow> Inr (this, drop (index + 1) data))
      else if hd data = CHR 0x09 then
        Inr (writeParentOut this data, tl data)
      else if hd data = CHR 0x03 then
        (let this = cancelPromptResponse this;
             toPrint = ShellUpdate env (Prompt this) (Clear (Prompt this));
             this = this\<lparr>Prompt := Clear (Prompt this)\<rparr>;
             this = writeParentOut this toPrint;
             this = writeParentOut this (ColorCommand (Color this));
             this = setState this stateNormal in
         Inr (this, tl data))
      else if hd data = CHR 0x0C then
        (let this = writeParentOut this CLEAR_SCREEN;
             this = writeParentOut this (ColorPrompt (Color this));
             this = writeParentOut this (String (Prompt this)) in
         Inr (this, tl data))
      else
        (let toPrint = ShellUpdate env (Prompt this) (Write (Prompt this) data);
             this = this\<lparr>Prompt := Write (Prompt this) data\<rparr>;
             this = writeParentOut this toPrint;
             this = (if Size (Prompt this) = 0
                     then setState (writeParentOut this (ColorCommand (Color this))) stateNormal
                     else this) in
         Inr (this, [])))"

definition ParentInput_Shell :: "ShellState \<Rightarrow> string \<Rightarrow> ShellState \<times> string" where
  "ParentInput_Shell this data =
     (if CHR 0x0D \<in> set data then
        (let this = setState this stateNormal;
             index = indexCR data;
             this = writeChildIn this (take (index + 1) data);
             this = this\<lparr>History := Append (History this) historyTypeShellInput (String (Command this))\<rparr>;
             this = this\<lparr>Command := NewShellBuffer\<rparr> in
         (this, drop (index + 1) data))
      else if hd data = CHR 0x03 then
        (let this = this\<lparr>Command := Clear (Command this)\<rparr>;
             this = setState this stateNormal;
             this = writeChildIn this [hd data] in
         (this, tl data))
      else if hd data = CHR 0x09 then
        (writeChildIn this [hd data], tl data)
      else
        (let this = this\<lparr>Command := Write (Command this) data\<rparr>;
             this = writeChildIn this data;
             this = (if Size (Command this) = 0 then setState this stateNormal else this) in
         (this, [])))"

definition ParentInput :: "Env \<Rightarrow> ShellState \<Rightarrow> string \<Rightarrow> error + (ShellState \<times> string)" where
  "ParentInput env this data =
     (if data = [] then Inl IndexOutOfRange
      else
        case State this of
          statePromptResponse \<Rightarrow> Inr (ParentInput_PromptResponse this data)
        | stateNormal \<Rightarrow> ParentInput_Normal this data
        | statePrompting \<Rightarrow> ParentInput_Prompting env this data
        | stateShell \<Rightarrow> Inr (ParentInput_Shell this data))"

lemma ParentInput_leftover:
  "ParentInput env this data = Inr (this', leftover) \<Longrightarrow> length leftover \<le> length data"
  by (auto simp: ParentInput_def ParentInput_PromptResponse_def ParentInput_Normal_def
        ParentInput_Prompting_def ParentInput_Shell_def Let_def
      split: if_splits state.splits sum.splits prod.splits)

text \<open>The \<open>for\<close> loop of \<open>ParentInputLoop\<close>.\<close>

function ParentInput_iterate :: "Env \<Rightarrow> ShellState \<Rightarrow> string \<Rightarrow> error + ShellState" where
  "ParentInput_iterate env this data =
     (case ParentInput env this data of
        Inl e \<Rightarrow> Inl e
      | Inr (this', leftover) \<Rightarrow>
          if length leftover = 0 then Inr this'
          else if length leftover = length data
          then Inr (this'\<lparr>parentInBuffer := parentInBuffer this' @ leftover\<rparr>)
          else ParentInput_iterate env this' leftover)"
  by pat_completeness auto
termination
proof (relation "measure (\<lambda>(env, this, data). length data)")
  show "wf (measure (\<lambda>(env, this, data). length data))" by simp
next
  fix env this data x2 x y
  assume "ParentInput env this data = Inr x2" "(x, y) = x2" "length y \<noteq> 0" "length y \<noteq> length data"
  then have "ParentInput env this data = Inr (x, y)" by simp
  from ParentInput_leftover [OF this] \<open>length y \<noteq> length data\<close>
  show "((env, x, y), env, this, data) \<in> measure (\<lambda>(env, this, data). length data)"
    by simp
qed

declare ParentInput_iterate.simps [simp del]

definition ParentInputLoop :: "Env \<Rightarrow> ShellState \<Rightarrow> string \<Rightarrow> error + ShellState" where
  "ParentInputLoop env this data =
     (let (this, data) =
            (if 0 < length (parentInBuffer this)
             then (this\<lparr>parentInBuffer := []\<rparr>, parentInBuffer this @ data)
             else (this, data)) in
      if length data = 0 then Inr this
      else if incompleteAnsiSequence data
      then Inr (this\<lparr>parentInBuffer := parentInBuffer this @ data\<rparr>)
      else ParentInput_iterate env this data)"

text \<open>
  The case for \<open>PromptOutputChan\<close> up to \<open>setState(stateNormal)\<close>; the call
  \<open>ParentInputLoop([]byte{})\<close> follows it.
\<close>

definition completionResult :: "ShellState \<Rightarrow> string \<Rightarrow> ShellState" where
  "completionResult this completion =
     (let historyData = completion;
          this = (if historyData \<noteq> []
                  then this\<lparr>History := Append (History this) historyTypeLLMOutput historyData\<rparr>
                  else this);
          this = (if 0 < length (childOutBuffer this) then
                    (let this = writeParentOut this (childOutBuffer this);
                         this = this\<lparr>History :=
                           Append (History this) historyTypeShellOutput (childOutBuffer this)\<rparr> in
                     this\<lparr>childOutBuffer := []\<rparr>)
                  else this);
          this = writeChildIn this [CHR 0x0A] in
      setState this stateNormal)"

text \<open>
  \<open>Mux\<close>: one iteration of the \<open>select\<close> loop for the event that is taken. The case for
  \<open>PrintErrorChan\<close> is ready when the channel holds an error; the events carry what arrives
  from outside (a cursor position, the new terminal width, the completion response or
  nil, a message of a reader or nil for a closed reader).
\<close>

datatype event =
    CtxDone
  | PrintErrorReceived
  | CursorPos int int
  | Sigwinch int
  | PromptOutput "string option"
  | ChildOut "string option"
  | ParentIn "string option"

definition Mux_select :: "Env \<Rightarrow> ShellState \<Rightarrow> event \<Rightarrow> error + ShellState" where
  "Mux_select env this ev =
     (case ev of
        CtxDone \<Rightarrow> Inr (this\<lparr>Stopped := True\<rparr>)
      | PrintErrorReceived \<Rightarrow>
          (case PrintErrorChan this of
             [] \<Rightarrow> Inl ChannelNotReady
           | err # waiting \<Rightarrow>
               (let this = this\<lparr>PrintErrorChan := waiting\<rparr>;
                    this = this\<lparr>History := Append (History this) historyTypeShellOutput err\<rparr>;
                    this = writeParentOut this (ColorError (Color this) @ err);
                    this = setState this stateNormal;
                    this = writeChildIn this [CHR 0x0A] in
                Inr this))
      | CursorPos row col \<Rightarrow>
          Inr (writeChildIn this
                 ([CHR 0x1B, CHR ''[''] @ int_to_dec row @ '';'' @ int_to_dec col @ ''R''))
      | Sigwinch newWidth \<Rightarrow>
          (let this = this\<lparr>TerminalWidth := newWidth\<rparr>;
               this = this\<lparr>Prompt := SetTerminalWidth (Prompt this) newWidth\<rparr>;
               this = this\<lparr>Command := SetTerminalWidth (Command this) newWidth\<rparr> in
           Inr this)
      | PromptOutput None \<Rightarrow> Inl NilPointerDereference
      | PromptOutput (Some completion) \<Rightarrow>
          ParentInputLoop env (completionResult this completion) []
      | ChildOut None \<Rightarrow> Inr (this\<lparr>Stopped := True\<rparr>)
      | ChildOut (Some data) \<Rightarrow>
          (case ShellState_ParsePS1 (ShellLeavePromptAlone env) data of
             (lastStatus, prompts, childOutStr) \<Rightarrow>
               (let this = this\<lparr>PromptSuffixCounter :=
                             wrap64 (PromptSuffixCounter this + prompts)\<rparr> in
                if State this = statePromptResponse
                then Inr (this\<lparr>childOutBuffer := childOutBuffer this @ childOutStr\<rparr>)
                else
                  (let this = (if State this \<noteq> stateShell \<and> \<not> FilterChildOut data
                               then this\<lparr>History :=
                                      Append (History this) historyTypeShellOutput childOutStr\<rparr>
                               else this) in
                   Inr (writeParentOut this childOutStr))))
      | ParentIn None \<Rightarrow> Inr (this\<lparr>Stopped := True\<rparr>)
      | ParentIn (Some data) \<Rightarrow> ParentInputLoop env this data)"

text \<open>\<open>Mux\<close> on a sequence of events: it stops at a panic or when it has returned.\<close>

fun Mux :: "Env \<Rightarrow> ShellState \<Rightarrow> event list \<Rightarrow> error + ShellState" where
  "Mux env this [] = Inr this"
| "Mux env this (ev # evs) =
     (if Stopped this then Inr this
      else case Mux_select env this ev of
             Inl e \<Rightarrow> Inl e
           | Inr this' \<Rightarrow> Mux env this' evs)"

text \<open>The state \<open>ShellMultiplexer\<close> starts \<open>Mux\<close> with.\<close>

definition initialShellState :: "ShellColorScheme \<Rightarrow> int \<Rightarrow> int \<Rightarrow> ShellState" where
  "initialShellState colorScheme width promptMaxTokens =
     \<lparr>State = stateNormal,
      PromptSuffixCounter = 0,
      PromptMaxTokens = promptMaxTokens,
      History = NewShellHistory,
      Prompt = SetColor (SetTerminalWidth NewShellBuffer width) (ColorPrompt colorScheme),
      Command = NewShellBuffer,
      PromptResponseCancel = False,
      CancelCalls = 0,
      TerminalWidth = width,
      Color = colorScheme,
      parentInBuffer = [],
      ParentOut = [],
      ChildIn = [],
      PrintErrorChan = [],
      CursorPosChan = [],
      Requests = [],
      childOutBuffer = [],
      Stopped = False\<rparr>"

definition DarkShellColorScheme :: ShellColorScheme where
  "DarkShellColorScheme =
     \<lparr>ColorPrompt = CHR 0x1B # ''[38;5;154m'',
      ColorError = CHR 0x1B # ''[38;5;196m'',
      ColorCommand = CHR 0x1B # ''[0m'',
      ColorAnswer = CHR 0x1B # ''[38;5;221m'',
      ColorAnswerHighlight = CHR 0x1B # ''[38;5;204m''\<rparr>"

text \<open>
  A configuration for concrete evaluation: the defaults of the command line, the
  one-token-per-byte tokenizer, three tokens per message, a system message, and a
  terminal update that redraws the buffer.
\<close>

definition exampleEnv :: Env where
  "exampleEnv =
     \<lparr>ShellLeavePromptAlone = False,
      ShellMaxHistoryBlockTokens = 1024,
      ShellMaxResponseTokens = 2048,
      ShellPromptModel = ''gpt-4.1-mini'',
      PromptEncoder = byteEncoder,
      NumTokensPerMessageForModel = (\<lambda>model. 3),
      GetPrompt = Inr ''You are an assistant'',
      ShellUpdate = (\<lambda>before after. String after)\<rparr>"

text \<open>Input typed key by key: every byte is a message of its own.\<close>

definition keystrokes :: "string \<Rightarrow> event list" where
  "keystrokes bs = map (\<lambda>c. ParentIn (Some [c])) bs"

section \<open>Properties of the PS1 protocol\<close>

lemma foldl_lastStatus:
  "foldl (\<lambda>(lastStatus, prompts) match. (Atoi match, prompts + 1)) (a, n) ms =
     (if ms = [] then (a, n) else (Atoi (last ms), n + int (length ms)))"
  by (induction ms arbitrary: a n) auto

lemma ParsePS1_eq:
  "ParsePS1 data regex currIcon =
     (if FindAllStringSubmatch regex data = [] then (0, 0, data)
      else (Atoi (last (FindAllStringSubmatch regex data)),
            int (length (FindAllStringSubmatch regex data)),
            ReplaceAll (ReplaceAllString regex data currIcon) PROMPT_PREFIX []))"
  by (simp add: ParsePS1_def Let_def foldl_lastStatus)

text \<open>
  Claim C3. On the chunk \<open>ESC Q\<close>, fish, \<open>" 127"\<close>, \<open>ESC R\<close>, \<open>" $ "\<close>, with the icon
  configured, \<open>ParsePS1\<close> returns status 127, one prompt and the fish followed by
  \<open>" $ "\<close>. On a chunk with two prompts (status 0, then status 1) it returns status 1,
  two prompts and the chunk with both trailing sentinels replaced by the fish and both
  \<open>ESC Q\<close> removed; when the prompt is left alone, the same with nothing in place of the
  sentinels (status 130 after status 0); a status of twenty nines is returned as the
  largest \<open>int\<close>. In general, for a chunk with at least one match of the
  trailing-sentinel pattern, the status is \<open>Atoi\<close> of the digits of the last match, the
  count is the number of matches, and the cleaned chunk is the chunk with every match
  replaced by the icon and then every \<open>ESC Q\<close> removed; a chunk without a match is
  returned as it is, with status 0 and count 0. The multiplexer adds the count to
  \<open>PromptSuffixCounter\<close> and forwards (or, in PromptResponse, buffers) the cleaned chunk:
  from the initial state the chunk with two prompts leaves the counter at 2 and the
  cleaned chunk on the parent's output, and in PromptResponse it leaves the counter at 2,
  the cleaned chunk in the buffer and nothing on the parent's output.
\<close>

theorem ParsePS1_sentinels:
  "ShellState_ParsePS1 False
      ([CHR 0x1B, CHR ''Q''] @ EMOJI_DEFAULT @ '' 127'' @ [CHR 0x1B, CHR ''R''] @ '' $ '')
     = (127, 1, EMOJI_DEFAULT @ '' $ '')
   \<and> ShellState_ParsePS1 False
      ([CHR 0x1B, CHR ''Q''] @ EMOJI_DEFAULT @ '' 0'' @ [CHR 0x1B, CHR ''R''] @ '' $ ls''
         @ [CHR 0x0D, CHR 0x0A]
         @ [CHR 0x1B, CHR ''Q''] @ EMOJI_DEFAULT @ '' 1'' @ [CHR 0x1B, CHR ''R''] @ '' $ '')
     = (1, 2, EMOJI_DEFAULT @ '' $ ls'' @ [CHR 0x0D, CHR 0x0A] @ EMOJI_DEFAULT @ '' $ '')
   \<and> ShellState_ParsePS1 True
      ([CHR 0x1B, CHR ''Q''] @ ''~ 0'' @ [CHR 0x1B, CHR ''R''] @ ''$ pwd''
         @ [CHR 0x0D, CHR 0x0A]
         @ [CHR 0x1B, CHR ''Q''] @ ''~ 130'' @ [CHR 0x1B, CHR ''R''] @ ''$ '')
     = (130, 2, ''~$ pwd'' @ [CHR 0x0D, CHR 0x0A] @ ''~$ '')
   \<and> ShellState_ParsePS1 False
      ([CHR 0x1B, CHR ''Q''] @ EMOJI_DEFAULT @ '' 99999999999999999999'' @ [CHR 0x1B, CHR ''R''] @ '' $ '')
     = (9223372036854775807, 1, EMOJI_DEFAULT @ '' $ '')
   \<and> ShellState_ParsePS1 leaveAlone data =
      (if FindAllStringSubmatch (if leaveAlone then ps1Regex else ps1FullRegex) data = []
       then (0, 0, data)
       else (Atoi (last (FindAllStringSubmatch (if leaveAlone then ps1Regex else ps1FullRegex) data)),
             int (length (FindAllStringSubmatch (if leaveAlone then ps1Regex else ps1FullRegex) data)),
             ReplaceAll
               (ReplaceAllString (if leaveAlone then ps1Regex else ps1FullRegex) data
                  (if leaveAlone then [] else EMOJI_DEFAULT))
               PROMPT_PREFIX []))
   \<and> (\<exists>this'. Mux_select env this (ChildOut (Some data)) = Inr this'
        \<and> PromptSuffixCounter this' =
            wrap64 (PromptSuffixCounter this
                    + fst (snd (ShellState_ParsePS1 (ShellLeavePromptAlone env) data)))
        \<and> (if State this = statePromptResponse
            then childOutBuffer this' =
                   childOutBuffer this @ snd (snd (ShellState_ParsePS1 (ShellLeavePromptAlone env) data))
                 \<and> ParentOut this' = ParentOut this
            else ParentOut this' =
                   ParentOut this @ snd (snd (ShellState_ParsePS1 (ShellLeavePromptAlone env) data))))
   \<and> map_sum id (\<lambda>this'. (PromptSuffixCounter this', ParentOut this', childOutBuffer this'))
       (Mux_select exampleEnv (initialShellState DarkShellColorScheme 80 512)
          (ChildOut (Some
            ([CHR 0x1B, CHR ''Q''] @ EMOJI_DEFAULT @ '' 0'' @ [CHR 0x1B, CHR ''R''] @ '' $ ls''
               @ [CHR 0x0D, CHR 0x0A]
               @ [CHR 0x1B, CHR ''Q''] @ EMOJI_DEFAULT @ '' 1'' @ [CHR 0x1B, CHR ''R''] @ '' $ ''))))
     = Inr (2, EMOJI_DEFAULT @ '' $ ls'' @ [CHR 0x0D, CHR 0x0A] @ EMOJI_DEFAULT @ '' $ '', [])
   \<and> map_sum id (\<lambda>this'. (PromptSuffixCounter this', ParentOut this', childOutBuffer this'))
       (Mux_select exampleEnv
          ((initialShellState DarkShellColorScheme 80 512)
             \<lparr>State := statePromptResponse, PromptSuffixCounter := 5\<rparr>)
          (ChildOut (Some
            ([CHR 0x1B, CHR ''Q''] @ EMOJI_DEFAULT @ '' 0'' @ [CHR 0x1B, CHR ''R''] @ '' $ ls''
               @ [CHR 0x0D, CHR 0x0A]
               @ [CHR 0x1B, CHR ''Q''] @ EMOJI_DEFAULT @ '' 1'' @ [CHR 0x1B, CHR ''R''] @ '' $ ''))))
     = Inr (7, [], EMOJI_DEFAULT @ '' $ ls'' @ [CHR 0x0D, CHR 0x0A] @ EMOJI_DEFAULT @ '' $ '')"
proof -
  have 1: "ShellState_ParsePS1 False
      ([CHR 0x1B, CHR ''Q''] @ EMOJI_DEFAULT @ '' 127'' @ [CHR 0x1B, CHR ''R''] @ '' $ '')
     = (127, 1, EMOJI_DEFAULT @ '' $ '')"
    by code_simp
  have 2: "ShellState_ParsePS1 False
      ([CHR 0x1B, CHR ''Q''] @ EMOJI_DEFAULT @ '' 0'' @ [CHR 0x1B, CHR ''R''] @ '' $ ls''
         @ [CHR 0x0D, CHR 0x0A]
         @ [CHR 0x1B, CHR ''Q''] @ EMOJI_DEFAULT @ '' 1'' @ [CHR 0x1B, CHR ''R''] @ '' $ '')
     = (1, 2, EMOJI_DEFAULT @ '' $ ls'' @ [CHR 0x0D, CHR 0x0A] @ EMOJI_DEFAULT @ '' $ '')"
    by code_simp
  have 3: "ShellState_ParsePS1 True
      ([CHR 0x1B, CHR ''Q''] @ ''~ 0'' @ [CHR 0x1B, CHR ''R''] @ ''$ pwd''
         @ [CHR 0x0D, CHR 0x0A]
         @ [CHR 0x1B, CHR ''Q''] @ ''~ 130'' @ [CHR 0x1B, CHR ''R''] @ ''$ '')
     = (130, 2, ''~$ pwd'' @ [CHR 0x0D, CHR 0x0A] @ ''~$ '')"
    by code_simp
  have 4: "ShellState_ParsePS1 False
      ([CHR 0x1B, CHR ''Q''] @ EMOJI_DEFAULT @ '' 99999999999999999999'' @ [CHR 0x1B, CHR ''R''] @ '' $ '')
     = (9223372036854775807, 1, EMOJI_DEFAULT @ '' $ '')"
    by code_simp
  have 5: "ShellState_ParsePS1 leaveAlone data =
      (if FindAllStringSubmatch (if leaveAlone then ps1Regex else ps1FullRegex) data = []
       then (0, 0, data)
       else (Atoi (last (FindAllStringSubmatch (if leaveAlone then ps1Regex else ps1FullRegex) data)),
             int (length (FindAllStringSubmatch (if leaveAlone then ps1Regex else ps1FullRegex) data)),
             ReplaceAll
               (ReplaceAllString (if leaveAlone then ps1Regex else ps1FullRegex) data
                  (if leaveAlone then [] else EMOJI_DEFAULT))
               PROMPT_PREFIX []))"
    by (simp add: ShellState_ParsePS1_def ParsePS1_eq)
  obtain st n cl where p: "ShellState_ParsePS1 (ShellLeavePromptAlone env) data = (st, n, cl)"
    by (cases "ShellState_ParsePS1 (ShellLeavePromptAlone env) data") auto
  have 6: "\<exists>this'. Mux_select env this (ChildOut (Some data)) = Inr this'
        \<and> PromptSuffixCounter this' =
            wrap64 (PromptSuffixCounter this
                    + fst (snd (ShellState_ParsePS1 (ShellLeavePromptAlone env) data)))
        \<and> (if State this = statePromptResponse
            then childOutBuffer this' =
                   childOutBuffer this @ snd (snd (ShellState_ParsePS1 (ShellLeavePromptAlone env) data))
                 \<and> ParentOut this' = ParentOut this
            else ParentOut this' =
                   ParentOut this @ snd (snd (ShellState_ParsePS1 (ShellLeavePromptAlone env) data)))"
    by (simp add: Mux_select_def p Let_def writeParentOut_def)
  have 7: "map_sum id (\<lambda>this'. (PromptSuffixCounter this', ParentOut this', childOutBuffer this'))
       (Mux_select exampleEnv (initialShellState DarkShellColorScheme 80 512)
          (ChildOut (Some
            ([CHR 0x1B, CHR ''Q''] @ EMOJI_DEFAULT @ '' 0'' @ [CHR 0x1B, CHR ''R''] @ '' $ ls''
               @ [CHR 0x0D, CHR 0x0A]
               @ [CHR 0x1B, CHR ''Q''] @ EMOJI_DEFAULT @ '' 1'' @ [CHR 0x1B, CHR ''R''] @ '' $ ''))))
     = Inr (2, EMOJI_DEFAULT @ '' $ ls'' @ [CHR 0x0D, CHR 0x0A] @ EMOJI_DEFAULT @ '' $ '', [])"
    by code_simp
  have 8: "map_sum id (\<lambda>this'. (PromptSuffixCounter this', ParentOut this', childOutBuffer this'))
       (Mux_select exampleEnv
          ((initialShellState DarkShellColorScheme 80 512)
             \<lparr>State := statePromptResponse, PromptSuffixCounter := 5\<rparr>)
          (ChildOut (Some
            ([CHR 0x1B, CHR ''Q''] @ EMOJI_DEFAULT @ '' 0'' @ [CHR 0x1B, CHR ''R''] @ '' $ ls''
               @ [CHR 0x0D, CHR 0x0A]
               @ [CHR 0x1B, CHR ''Q''] @ EMOJI_DEFAULT @ '' 1'' @ [CHR 0x1B, CHR ''R''] @ '' $ ''))))
     = Inr (7, [], EMOJI_DEFAULT @ '' $ ls'' @ [CHR 0x0D, CHR 0x0A] @ EMOJI_DEFAULT @ '' $ '')"
    by code_simp
  from 1 2 3 4 5 6 7 8 show ?thesis by (intro conjI)
qed

text \<open>
  The claim as stated, that both sentinel forms are stripped from every forwarded chunk,
  fails on a chunk that holds the leading sentinel and no trailing sentinel (the prompt
  split over two reads): \<open>ParsePS1\<close> returns at once when there is no match, and the
  \<open>ESC Q\<close> stays in the chunk.
\<close>

theorem ParsePS1_prefix_counterexample:
  "ShellState_ParsePS1 False ([CHR 0x1B, CHR ''Q''] @ ''~/src '') = (0, 0, [CHR 0x1B, CHR ''Q''] @ ''~/src '')"
  by code_simp

section \<open>Properties of the multiplexer\<close>

subsection \<open>Errors\<close>

text \<open>
  A text without backspace, delete, carriage return and escape is inserted by the buffer
  byte by byte; written to a buffer whose cursor is at the end, it is appended to what
  the buffer holds.
\<close>

definition plainText :: "string \<Rightarrow> bool" where
  "plainText s = list_all (\<lambda>c. c \<noteq> CHR 0x08 \<and> c \<noteq> CHR 0x0D \<and> c \<noteq> CHR 0x1B \<and> c \<noteq> CHR 0x7F) s"

definition cursorAtEnd :: "ShellBuffer \<Rightarrow> bool" where
  "cursorAtEnd b = (cursor b = length (buffer b))"

lemma csi_split_no_escape: "c \<noteq> CHR 0x1B \<Longrightarrow> csi_split (c # cs) = None"
  by (cases cs) simp_all

lemma Write_plainText:
  "plainText s \<Longrightarrow> cursorAtEnd b \<Longrightarrow>
   buffer (Write b s) = buffer b @ map Plain s \<and> cursorAtEnd (Write b s)"
proof (induction s arbitrary: b)
  case Nil
  then show ?case by simp
next
  case (Cons c s)
  from Cons.prems(1) have c: "c \<noteq> CHR 0x08" "c \<noteq> CHR 0x0D" "c \<noteq> CHR 0x1B" "c \<noteq> CHR 0x7F"
    and s: "plainText s"
    by (simp_all add: plainText_def)
  have w: "Write b (c # s) = Write (insert_cell b (Plain c)) s"
    using c by (simp add: csi_split_no_escape write_byte_def)
  have e: "cursorAtEnd (insert_cell b (Plain c))"
    and b: "buffer (insert_cell b (Plain c)) = buffer b @ [Plain c]"
    using Cons.prems(2) by (simp_all add: cursorAtEnd_def insert_cell_def)
  from Cons.IH [OF s e] w b show ?case by simp
qed

lemma String_Write_plainText:
  "plainText s \<Longrightarrow> cursorAtEnd b \<Longrightarrow> String (Write b s) = String b @ s"
  using Write_plainText [of s b] by (simp add: String_def comp_def)

lemma assembleChat_no_ShellOutput:
  assumes "assembleChat N prompt sysMsg functions history model encoder
             maxPromptTokens maxHistoryBlockTokens maxTokens = Inr (history', prompt', blocks)"
  shows "\<forall>hb \<in> set blocks. BlockType hb \<noteq> historyTypeShellOutput"
proof -
  from assms obtain mt tot where
    "getHistoryBlocksByTokens history encoder maxHistoryBlockTokens mt (N model)
       = Inr (history', blocks, tot)"
    by (auto simp: assembleChat_def Let_def split: sum.splits if_splits)
  from getHistoryBlocksByTokens_selects [OF this] msgCost_not_ShellOutput show ?thesis
    by blast
qed

text \<open>
  Claim C10. When an error is received from \<open>PrintErrorChan\<close>, its text is appended to
  the history with kind ShellOutput, written to the parent after the error color, the
  state becomes Normal and one line feed is written to the child. The blocks of the
  history afterwards are: the blocks before, when the text is empty; the blocks before
  with the text written to the content of the last one, when that block has kind
  ShellOutput; and otherwise the blocks before and a new block of kind ShellOutput whose
  content is the text written to a new buffer. A non-empty text is then in the last
  block, whose kind is ShellOutput: for a text that the buffer inserts byte by byte, the
  content of the last block is the text, after what a last block of kind ShellOutput held
  before when its cursor was at the end. And no call of \<open>getHistoryBlocksByTokens\<close> or of
  \<open>assembleChat\<close>, on any history, returns a block of kind ShellOutput.
\<close>

theorem Mux_error_received:
  assumes "PrintErrorChan this = err # waiting"
  shows "Mux_select env this PrintErrorReceived =
           Inr (this\<lparr>PrintErrorChan := waiting,
                     History := Append (History this) historyTypeShellOutput err,
                     ParentOut := ParentOut this @ ColorError (Color this) @ err,
                     State := stateNormal,
                     ChildIn := ChildIn this @ [CHR 0x0A]\<rparr>)
       \<and> Blocks (Append (History this) historyTypeShellOutput err) =
           (if err = [] then Blocks (History this)
            else if 0 < length (Blocks (History this))
                    \<and> Type (last (Blocks (History this))) = historyTypeShellOutput
            then butlast (Blocks (History this)) @
                   [(last (Blocks (History this)))
                      \<lparr>Content := Write (Content (last (Blocks (History this)))) err\<rparr>]
            else Blocks (History this) @
                   [\<lparr>Type = historyTypeShellOutput, Content = Write NewShellBuffer err,
                     Tokenizations = Map.empty\<rparr>])
       \<and> (err \<noteq> [] \<longrightarrow>
            Blocks (Append (History this) historyTypeShellOutput err) \<noteq> []
          \<and> Type (last (Blocks (Append (History this) historyTypeShellOutput err))) = historyTypeShellOutput)
       \<and> (err \<noteq> [] \<and> plainText err \<longrightarrow>
            (if 0 < length (Blocks (History this))
                \<and> Type (last (Blocks (History this))) = historyTypeShellOutput
             then cursorAtEnd (Content (last (Blocks (History this)))) \<longrightarrow>
                  String (Content (last (Blocks (Append (History this) historyTypeShellOutput err))))
                    = String (Content (last (Blocks (History this)))) @ err
             else String (Content (last (Blocks (Append (History this) historyTypeShellOutput err))))
                    = err))
       \<and> (\<forall>history encoder maxHistoryBlockTokens maxTokens tokensPerMessage history' blocks usedTokens.
            getHistoryBlocksByTokens history encoder maxHistoryBlockTokens maxTokens tokensPerMessage
              = Inr (history', blocks, usedTokens) \<longrightarrow>
            (\<forall>hb \<in> set blocks. BlockType hb \<noteq> historyTypeShellOutput))
       \<and> (\<forall>N prompt sysMsg functions history model encoder maxPromptTokens maxHistoryBlockTokens
            maxTokens history' prompt' blocks.
            assembleChat N prompt sysMsg functions history model encoder
              maxPromptTokens maxHistoryBlockTokens maxTokens = Inr (history', prompt', blocks) \<longrightarrow>
            (\<forall>hb \<in> set blocks. BlockType hb \<noteq> historyTypeShellOutput))"
proof -
  let ?B = "Blocks (History this)"
  have 1: "Mux_select env this PrintErrorReceived =
           Inr (this\<lparr>PrintErrorChan := waiting,
                     History := Append (History this) historyTypeShellOutput err,
                     ParentOut := ParentOut this @ ColorError (Color this) @ err,
                     State := stateNormal,
                     ChildIn := ChildIn this @ [CHR 0x0A]\<rparr>)"
    using assms by (simp add: Mux_select_def Let_def writeParentOut_def writeChildIn_def setState_def)
  have 2: "Blocks (Append (History this) historyTypeShellOutput err) =
           (if err = [] then ?B
            else if 0 < length ?B \<and> Type (last ?B) = historyTypeShellOutput
            then butlast ?B @ [(last ?B)\<lparr>Content := Write (Content (last ?B)) err\<rparr>]
            else ?B @
                   [\<lparr>Type = historyTypeShellOutput, Content = Write NewShellBuffer err,
                     Tokenizations = Map.empty\<rparr>])"
    by (simp add: Append_def add_def del: Write.simps)
  have 3: "err \<noteq> [] \<longrightarrow>
            Blocks (Append (History this) historyTypeShellOutput err) \<noteq> []
          \<and> Type (last (Blocks (Append (History this) historyTypeShellOutput err))) = historyTypeShellOutput"
    by (auto simp: Append_def add_def)
  have n: "cursorAtEnd NewShellBuffer" "String NewShellBuffer = []"
    by (simp_all add: cursorAtEnd_def NewShellBuffer_def String_def)
  have 4: "err \<noteq> [] \<and> plainText err \<longrightarrow>
            (if 0 < length ?B \<and> Type (last ?B) = historyTypeShellOutput
             then cursorAtEnd (Content (last ?B)) \<longrightarrow>
                  String (Content (last (Blocks (Append (History this) historyTypeShellOutput err))))
                    = String (Content (last ?B)) @ err
             else String (Content (last (Blocks (Append (History this) historyTypeShellOutput err))))
                    = err)"
    using String_Write_plainText [of err "Content (last ?B)"]
          String_Write_plainText [of err NewShellBuffer] n
    by (simp add: 2 del: Write.simps)
  have 5: "\<forall>hb \<in> set blocks. BlockType hb \<noteq> historyTypeShellOutput"
    if "getHistoryBlocksByTokens history encoder maxHistoryBlockTokens maxTokens tokensPerMessage
              = Inr (history', blocks, usedTokens)"
    for history encoder maxHistoryBlockTokens maxTokens tokensPerMessage history' blocks usedTokens
    using getHistoryBlocksByTokens_selects [OF that] msgCost_not_ShellOutput by blast
  have 6: "\<forall>hb \<in> set blocks. BlockType hb \<noteq> historyTypeShellOutput"
    if "assembleChat N prompt sysMsg fns history model encoder
              maxPromptTokens maxHistoryBlockTokens maxTokens = Inr (history', prompt', blocks)"
    for N prompt sysMsg fns history model encoder maxPromptTokens maxHistoryBlockTokens
        maxTokens history' prompt' blocks
    using assembleChat_no_ShellOutput [OF that] .
  from 1 2 3 4 5 6 show ?thesis by blast
qed

theorem Mux_error_received_witness:
  "PrintErrorChan
     ((initialShellState DarkShellColorScheme 80 16384)
        \<lparr>State := statePromptResponse,
         History := Appends NewShellHistory
                      [(historyTypePrompt, ''Why?''), (historyTypeShellOutput, ''out'')],
         PrintErrorChan := [''boom'']\<rparr>) = [''boom'']
   \<and> map_sum id (\<lambda>s. (State s, ChildIn s, ParentOut s, PrintErrorChan s,
                       map (\<lambda>b. (Type b, String (Content b))) (Blocks (History s))))
       (Mux_select exampleEnv
          ((initialShellState DarkShellColorScheme 80 16384)
             \<lparr>State := statePromptResponse,
              History := Appends NewShellHistory
                           [(historyTypePrompt, ''Why?''), (historyTypeShellOutput, ''out'')],
              PrintErrorChan := [''boom'']\<rparr>)
          PrintErrorReceived)
     = Inr (stateNormal, [CHR 0x0A], ColorError DarkShellColorScheme @ ''boom'', [],
            [(historyTypePrompt, ''Why?''), (historyTypeShellOutput, ''outboom'')])
   \<and> String (Content (last (Blocks
        (Append (Appends NewShellHistory
                   [(historyTypePrompt, ''Why?''), (historyTypeShellOutput, ''out'')])
           historyTypeShellOutput ''boom'')))) = ''outboom''
   \<and> map_sum id (\<lambda>s. (State s, ChildIn s, ParentOut s, PrintErrorChan s,
                       map (\<lambda>b. (Type b, String (Content b))) (Blocks (History s))))
       (Mux_select exampleEnv
          ((initialShellState DarkShellColorScheme 80 16384)
             \<lparr>State := stateShell,
              History := Appends NewShellHistory [(historyTypeShellInput, ''ls'')],
              PrintErrorChan := [''boom'', ''bang'']\<rparr>)
          PrintErrorReceived)
     = Inr (stateNormal, [CHR 0x0A], ColorError DarkShellColorScheme @ ''boom'', [''bang''],
            [(historyTypeShellInput, ''ls''), (historyTypeShellOutput, ''boom'')])
   \<and> map_sum id snd
       (assembleChat (\<lambda>model. 3) ''next'' ''sys'' []
          (Append (Appends NewShellHistory
                     [(historyTypePrompt, ''Why?''), (historyTypeShellOutput, ''out'')])
             historyTypeShellOutput ''boom'')
          ''gpt-4'' byteEncoder 512 1024 100)
     = Inr (''next'', [\<lparr>BlockType = historyTypePrompt, BlockContent = ''Why?''\<rparr>])"
proof -
  let ?h = "Appends NewShellHistory
              [(historyTypePrompt, ''Why?''), (historyTypeShellOutput, ''out'')]"
  let ?s = "(initialShellState DarkShellColorScheme 80 16384)
        \<lparr>State := statePromptResponse, History := ?h, PrintErrorChan := [''boom'']\<rparr>"
  have h: "PrintErrorChan ?s = [''boom'']" by simp
  have H: "History ?s = ?h" by simp
  have 2: "map_sum id (\<lambda>s. (State s, ChildIn s, ParentOut s, PrintErrorChan s,
                       map (\<lambda>b. (Type b, String (Content b))) (Blocks (History s))))
       (Mux_select exampleEnv ?s PrintErrorReceived)
     = Inr (stateNormal, [CHR 0x0A], ColorError DarkShellColorScheme @ ''boom'', [],
            [(historyTypePrompt, ''Why?''), (historyTypeShellOutput, ''outboom'')])"
    by code_simp
  have p: "''boom'' \<noteq> [] \<and> plainText ''boom''" by code_simp
  have l: "0 < length (Blocks ?h) \<and> Type (last (Blocks ?h)) = historyTypeShellOutput"
    by code_simp
  have e: "cursorAtEnd (Content (last (Blocks ?h)))" by code_simp
  have o: "String (Content (last (Blocks ?h))) = ''out''" by code_simp
  note t = Mux_error_received [OF h, of exampleEnv, unfolded H]
  from t [THEN conjunct2, THEN conjunct2, THEN conjunct2, THEN conjunct1] p l e
  have "String (Content (last (Blocks (Append ?h historyTypeShellOutput ''boom''))))
          = String (Content (last (Blocks ?h))) @ ''boom''"
    by (simp only: if_True simp_thms)
  then have 3: "String (Content (last (Blocks (Append ?h historyTypeShellOutput ''boom''))))
          = ''outboom''"
    unfolding o by simp
  have 4: "map_sum id (\<lambda>s. (State s, ChildIn s, ParentOut s, PrintErrorChan s,
                       map (\<lambda>b. (Type b, String (Content b))) (Blocks (History s))))
       (Mux_select exampleEnv
          ((initialShellState DarkShellColorScheme 80 16384)
             \<lparr>State := stateShell,
              History := Appends NewShellHistory [(historyTypeShellInput, ''ls'')],
              PrintErrorChan := [''boom'', ''bang'']\<rparr>)
          PrintErrorReceived)
     = Inr (stateNormal, [CHR 0x0A], ColorError DarkShellColorScheme @ ''boom'', [''bang''],
            [(historyTypeShellInput, ''ls''), (historyTypeShellOutput, ''boom'')])"
    by code_simp
  have 5: "map_sum id snd
       (assembleChat (\<lambda>model. 3) ''next'' ''sys'' []
          (Append ?h historyTypeShellOutput ''boom'')
          ''gpt-4'' byteEncoder 512 1024 100)
     = Inr (''next'', [\<lparr>BlockType = historyTypePrompt, BlockContent = ''Why?''\<rparr>])"
    by code_simp
  from h 2 3 4 5 show ?thesis by (intro conjI)
qed

subsection \<open>Input while a response is streaming\<close>

lemma ParentInput_iterate_no_progress:
  "ParentInput env this data = Inr (this', data) \<Longrightarrow> data \<noteq> [] \<Longrightarrow>
   ParentInput_iterate env this data = Inr (this'\<lparr>parentInBuffer := parentInBuffer this' @ data\<rparr>)"
  by (subst ParentInput_iterate.simps) simp

lemma ParentInput_iterate_consumed:
  "ParentInput env this data = Inr (this', []) \<Longrightarrow> ParentInput_iterate env this data = Inr this'"
  by (subst ParentInput_iterate.simps) simp

lemma ParentInput_PromptResponse_ignored:
  "State this = statePromptResponse \<Longrightarrow> data \<noteq> [] \<Longrightarrow> hd data \<noteq> CHR 0x03 \<Longrightarrow>
   last data \<noteq> CHR 0x03 \<Longrightarrow> ParentInput env this data = Inr (this, data)"
  by (simp add: ParentInput_def ParentInput_PromptResponse_def)

lemma parentInBuffer_reset_id:
  "parentInBuffer this = [] \<Longrightarrow> this\<lparr>parentInBuffer := []\<rparr> = this"
  by (cases this) simp

lemma ParentInputLoop_PromptResponse:
  assumes "State this = statePromptResponse"
      and "parentInBuffer this @ data \<noteq> []"
      and "hd (parentInBuffer this @ data) \<noteq> CHR 0x03"
      and "last (parentInBuffer this @ data) \<noteq> CHR 0x03"
  shows "ParentInputLoop env this data = Inr (this\<lparr>parentInBuffer := parentInBuffer this @ data\<rparr>)"
proof -
  let ?d = "parentInBuffer this @ data"
  let ?t = "this\<lparr>parentInBuffer := []\<rparr>"
  have st: "State ?t = statePromptResponse" using assms(1) by simp
  have it: "ParentInput_iterate env ?t ?d = Inr (?t\<lparr>parentInBuffer := parentInBuffer ?t @ ?d\<rparr>)"
    using ParentInput_PromptResponse_ignored [OF st assms(2,3,4), of env]
    by (rule ParentInput_iterate_no_progress) (rule assms(2))
  have "ParentInputLoop env this data =
          (if incompleteAnsiSequence ?d then Inr (?t\<lparr>parentInBuffer := parentInBuffer ?t @ ?d\<rparr>)
           else ParentInput_iterate env ?t ?d)"
    using assms(2)
    by (cases "parentInBuffer this = []") (auto simp: ParentInputLoop_def parentInBuffer_reset_id)
  with it show ?thesis by simp
qed

lemma ParentInputLoop_buffered:
  "ParentInputLoop env this [] =
   ParentInputLoop env (this\<lparr>parentInBuffer := []\<rparr>) (parentInBuffer this)"
  by (cases "parentInBuffer this = []") (simp_all add: ParentInputLoop_def parentInBuffer_reset_id)

text \<open>
  Claim C2. In PromptResponse, a chunk that, together with the bytes already in the
  parent-input buffer, neither begins nor ends with Ctrl-C changes nothing but the
  parent-input buffer: nothing is written to the child or to the parent and nothing is
  stored in the history, and the bytes are appended to the buffer. When the completion
  result arrives, the multiplexer, now in Normal state, runs the parent-input loop on
  the buffered bytes as on a chunk that has just arrived.
\<close>

theorem PromptResponse_input_is_buffered:
  assumes "State this = statePromptResponse"
      and "parentInBuffer this @ data \<noteq> []"
      and "hd (parentInBuffer this @ data) \<noteq> CHR 0x03"
      and "last (parentInBuffer this @ data) \<noteq> CHR 0x03"
  shows "Mux_select env this (ParentIn (Some data)) =
           Inr (this\<lparr>parentInBuffer := parentInBuffer this @ data\<rparr>)
       \<and> Mux_select env this (PromptOutput (Some completion)) =
           ParentInputLoop env ((completionResult this completion)\<lparr>parentInBuffer := []\<rparr>)
             (parentInBuffer this)
       \<and> State (completionResult this completion) = stateNormal"
proof -
  have 1: "Mux_select env this (ParentIn (Some data)) =
           Inr (this\<lparr>parentInBuffer := parentInBuffer this @ data\<rparr>)"
    using ParentInputLoop_PromptResponse [OF assms] by (simp add: Mux_select_def)
  have b: "parentInBuffer (completionResult this completion) = parentInBuffer this"
    by (simp add: completionResult_def Let_def setState_def writeChildIn_def writeParentOut_def)
  have 2: "Mux_select env this (PromptOutput (Some completion)) =
           ParentInputLoop env ((completionResult this completion)\<lparr>parentInBuffer := []\<rparr>)
             (parentInBuffer this)"
    using ParentInputLoop_buffered [of env "completionResult this completion"] b
    by (simp add: Mux_select_def)
  have 3: "State (completionResult this completion) = stateNormal"
    by (simp add: completionResult_def Let_def setState_def)
  from 1 2 3 show ?thesis by (intro conjI)
qed

theorem PromptResponse_input_is_buffered_witness:
  "State ((initialShellState DarkShellColorScheme 80 16384)\<lparr>State := statePromptResponse\<rparr>)
     = statePromptResponse
   \<and> hd ''pwd'' \<noteq> CHR 0x03 \<and> last ''pwd'' \<noteq> CHR 0x03
   \<and> Mux_select exampleEnv
        ((initialShellState DarkShellColorScheme 80 16384)\<lparr>State := statePromptResponse\<rparr>)
        (ParentIn (Some ''pwd''))
     = Inr ((initialShellState DarkShellColorScheme 80 16384)
              \<lparr>State := statePromptResponse, parentInBuffer := ''pwd''\<rparr>)"
proof -
  let ?p = "(initialShellState DarkShellColorScheme 80 16384)\<lparr>State := statePromptResponse\<rparr>"
  have b: "parentInBuffer ?p = []" by (simp add: initialShellState_def)
  have h: "State ?p = statePromptResponse" "parentInBuffer ?p @ ''pwd'' \<noteq> []"
    "hd (parentInBuffer ?p @ ''pwd'') \<noteq> CHR 0x03" "last (parentInBuffer ?p @ ''pwd'') \<noteq> CHR 0x03"
    by (simp_all add: b)
  from PromptResponse_input_is_buffered [OF h, of exampleEnv] b show ?thesis
    by simp
qed

text \<open>
  The claim as stated, that the buffer is empty when the completion result arrives and
  no keystroke received during streaming is acted on afterwards, fails: after the prompt
  \<open>Hi\<close> is sent, the keys \<open>pwd\<close> typed during the response are in the buffer, and when the
  completion arrives they are written to the child behind the line feed, and the state
  is Shell.
\<close>

theorem PromptResponse_input_counterexample:
  "map_sum id (\<lambda>s. (State s, parentInBuffer s, ChildIn s))
     (Mux exampleEnv ((initialShellState DarkShellColorScheme 80 16384)\<lparr>CursorPosChan := [(1, 5)]\<rparr>)
        (keystrokes (''Hi'' @ [CHR 0x0D]) @ keystrokes ''pwd''))
     = Inr (statePromptResponse, ''pwd'', [])
   \<and> map_sum id (\<lambda>s. (State s, parentInBuffer s, ChildIn s))
     (Mux exampleEnv ((initialShellState DarkShellColorScheme 80 16384)\<lparr>CursorPosChan := [(1, 5)]\<rparr>)
        (keystrokes (''Hi'' @ [CHR 0x0D]) @ keystrokes ''pwd'' @ [PromptOutput (Some ''Hello'')]))
     = Inr (stateShell, [], CHR 0x0A # ''pwd'')"
  by code_simp

subsection \<open>The first byte of a line\<close>

lemma not_upper_control: "\<not> unicode_IsUpper (CHR 0x03)" "\<not> unicode_IsUpper (CHR 0x0C)"
  by (simp_all add: unicode_IsUpper_def byte_def)

lemma ParentInput_Normal_Prompting:
  assumes "State this = stateNormal" and "data \<noteq> []"
      and "ParentInput env this data = Inr (this', leftover)"
  shows "(State this' = statePrompting \<longleftrightarrow> unicode_IsUpper (hd data))
       \<and> (unicode_IsUpper (hd data) \<longrightarrow>
            leftover = tl data \<and> buffer (Prompt this') = buffer (Write (Clear (Prompt this)) data))"
proof (cases "unicode_IsUpper (hd data)")
  case True
  then have "hd data \<noteq> CHR 0x03" "hd data \<noteq> CHR 0x0C"
    using not_upper_control by auto
  with True assms show ?thesis
    by (auto simp: ParentInput_def ParentInput_Normal_def GetCursorPosition_def Let_def
          setState_def writeParentOut_def SetColor_def SetPromptLength_def
        split: list.splits prod.splits)
next
  case False
  with assms show ?thesis
    by (auto simp: ParentInput_def ParentInput_Normal_def Let_def
          setState_def writeParentOut_def writeChildIn_def
        split: if_splits)
qed

text \<open>
  Claim C4. What \<open>ParentInput\<close> does in Normal state with a chunk that begins with an
  upper-case letter and holds more than that byte: for the chunk \<open>Hi\<close> it writes the
  whole chunk into the prompt buffer and returns all but the first byte as leftover, so
  that after the input loop has run on the leftover the prompt buffer holds \<open>Hii\<close>; and
  for the two bytes of a lower-case e with acute accent in UTF-8 (\<open>0xC3 0xA9\<close>) it goes to
  Prompting, since \<open>0xC3\<close> is an upper-case letter of Latin-1.
\<close>

theorem Normal_uppercase_chunk:
  "map_sum id (\<lambda>(s, leftover). (State s, String (Prompt s), leftover))
     (ParentInput exampleEnv
        ((initialShellState DarkShellColorScheme 80 16384)\<lparr>CursorPosChan := [(1, 5)]\<rparr>) ''Hi'')
     = Inr (statePrompting, ''Hi'', ''i'')
   \<and> map_sum id (\<lambda>s. (State s, String (Prompt s)))
     (Mux exampleEnv
        ((initialShellState DarkShellColorScheme 80 16384)\<lparr>CursorPosChan := [(1, 5)]\<rparr>)
        [ParentIn (Some ''Hi'')])
     = Inr (statePrompting, ''Hii'')
   \<and> map_sum id (\<lambda>(s, leftover). (State s, String (Prompt s), leftover))
     (ParentInput exampleEnv
        ((initialShellState DarkShellColorScheme 80 16384)\<lparr>CursorPosChan := [(1, 5)]\<rparr>)
        [CHR 0xC3, CHR 0xA9])
     = Inr (statePrompting, [CHR 0xC3, CHR 0xA9], [CHR 0xA9])"
  by code_simp

subsection \<open>A command typed at the prompt\<close>

definition plain_byte :: "char \<Rightarrow> bool" where
  "plain_byte c = (c \<notin> {CHR 0x03, CHR 0x08, CHR 0x09, CHR 0x0C, CHR 0x0D, CHR 0x1B, CHR 0x7F}
                   \<and> \<not> unicode_IsUpper c)"

lemma Write_plain: "plain_byte c \<Longrightarrow> Write b [c] = insert_cell b (Plain c)"
  by (simp add: plain_byte_def write_byte_def)

lemma Size_insert_Plain: "Size (insert_cell b (Plain c)) = Size b + 1"
proof -
  have "buffer b = take (cursor b) (buffer b) @ drop (cursor b) (buffer b)" by simp
  then have "length (filter (\<lambda>x. case x of Plain c \<Rightarrow> True | Csi s \<Rightarrow> False) (buffer b)) =
        length (filter (\<lambda>x. case x of Plain c \<Rightarrow> True | Csi s \<Rightarrow> False) (take (cursor b) (buffer b)))
      + length (filter (\<lambda>x. case x of Plain c \<Rightarrow> True | Csi s \<Rightarrow> False) (drop (cursor b) (buffer b)))"
    by (metis filter_append length_append)
  then show ?thesis by (simp add: Size_def insert_cell_def)
qed

lemma Size_nonneg: "0 \<le> Size b"
  by (simp add: Size_def)

lemma incompleteAnsiSequence_plain: "plain_byte c \<Longrightarrow> \<not> incompleteAnsiSequence [c]"
  by (auto simp: plain_byte_def incompleteAnsiSequence_def)

lemma Normal_keystroke:
  assumes "State this = stateNormal" and "parentInBuffer this = []" and "plain_byte c"
  shows "ParentInputLoop env this [c] =
     Inr (this\<lparr>Command := insert_cell NewShellBuffer (Plain c),
               State := stateShell,
               ParentOut := ParentOut this @ ColorCommand (Color this),
               ChildIn := ChildIn this @ [c]\<rparr>)"
proof -
  have s: "0 < Size (insert_cell NewShellBuffer (Plain c))"
    using Size_nonneg [of NewShellBuffer] by (simp add: Size_insert_Plain)
  have "ParentInput env this [c] =
     Inr (this\<lparr>Command := insert_cell NewShellBuffer (Plain c),
               State := stateShell,
               ParentOut := ParentOut this @ ColorCommand (Color this),
               ChildIn := ChildIn this @ [c]\<rparr>, [])"
    using assms s
    by (auto simp: ParentInput_def ParentInput_Normal_def plain_byte_def write_byte_def
          Let_def setState_def writeParentOut_def writeChildIn_def)
  from ParentInput_iterate_consumed [OF this] show ?thesis
    using assms by (simp add: ParentInputLoop_def incompleteAnsiSequence_plain)
qed

lemma Shell_keystroke:
  assumes "State this = stateShell" and "parentInBuffer this = []" and "plain_byte c"
  shows "ParentInputLoop env this [c] =
     Inr (this\<lparr>Command := insert_cell (Command this) (Plain c),
               ChildIn := ChildIn this @ [c]\<rparr>)"
proof -
  have s: "Size (insert_cell (Command this) (Plain c)) \<noteq> 0"
    using Size_nonneg [of "Command this"] by (simp add: Size_insert_Plain)
  have "ParentInput env this [c] =
     Inr (this\<lparr>Command := insert_cell (Command this) (Plain c),
               ChildIn := ChildIn this @ [c]\<rparr>, [])"
    using assms s
    by (auto simp: ParentInput_def ParentInput_Shell_def plain_byte_def write_byte_def
          Let_def setState_def writeChildIn_def)
  from ParentInput_iterate_consumed [OF this] show ?thesis
    using assms by (simp add: ParentInputLoop_def incompleteAnsiSequence_plain)
qed

lemma Shell_return:
  assumes "State this = stateShell" and "parentInBuffer this = []"
  shows "ParentInputLoop env this [CHR 0x0D] =
     Inr (this\<lparr>State := stateNormal,
               ChildIn := ChildIn this @ [CHR 0x0D],
               History := Append (History this) historyTypeShellInput (String (Command this)),
               Command := NewShellBuffer\<rparr>)"
proof -
  have "ParentInput env this [CHR 0x0D] =
     Inr (this\<lparr>State := stateNormal,
               ChildIn := ChildIn this @ [CHR 0x0D],
               History := Append (History this) historyTypeShellInput (String (Command this)),
               Command := NewShellBuffer\<rparr>, [])"
    using assms
    by (simp add: ParentInput_def ParentInput_Shell_def indexCR_def
          Let_def setState_def writeChildIn_def)
  from ParentInput_iterate_consumed [OF this] show ?thesis
    using assms by (simp add: ParentInputLoop_def incompleteAnsiSequence_def)
qed

lemma Mux_ParentIn:
  "\<not> Stopped this \<Longrightarrow> ParentInputLoop env this data = Inr this' \<Longrightarrow>
   Mux env this (ParentIn (Some data) # evs) = Mux env this' evs"
  by (simp add: Mux_select_def)

text \<open>
  Claim C5. When the parent sends the bytes of \<open>ls -l\<close> and a carriage return one byte
  per message, in Normal state with an empty parent-input buffer, the child receives
  exactly these bytes, the state ends Normal, and \<open>ls -l\<close> is appended to the history with
  kind ShellInput; on an empty history that is exactly one ShellInput block with content
  \<open>ls -l\<close>.
\<close>

theorem passthrough_keystrokes:
  assumes "State this = stateNormal" and "parentInBuffer this = []" and "\<not> Stopped this"
  shows "\<exists>this'. Mux env this (keystrokes (''ls -l'' @ [CHR 0x0D])) = Inr this'
       \<and> State this' = stateNormal
       \<and> ChildIn this' = ChildIn this @ ''ls -l'' @ [CHR 0x0D]
       \<and> History this' = Append (History this) historyTypeShellInput ''ls -l''
       \<and> (Blocks (History this) = [] \<longrightarrow>
            map (\<lambda>b. (Type b, String (Content b))) (Blocks (History this')) =
              [(historyTypeShellInput, ''ls -l'')])"
proof -
  have p: "plain_byte (CHR ''l'')" "plain_byte (CHR ''s'')" "plain_byte (CHR '' '')" "plain_byte (CHR ''-'')"
    by (simp_all add: plain_byte_def unicode_IsUpper_def byte_def)
  let ?c1 = "insert_cell NewShellBuffer (Plain (CHR ''l''))"
  let ?c2 = "insert_cell ?c1 (Plain (CHR ''s''))"
  let ?c3 = "insert_cell ?c2 (Plain (CHR '' ''))"
  let ?c4 = "insert_cell ?c3 (Plain (CHR ''-''))"
  let ?c5 = "insert_cell ?c4 (Plain (CHR ''l''))"
  let ?s1 = "this\<lparr>Command := ?c1, State := stateShell,
               ParentOut := ParentOut this @ ColorCommand (Color this),
               ChildIn := ChildIn this @ ''l''\<rparr>"
  let ?s2 = "?s1\<lparr>Command := ?c2, ChildIn := ChildIn ?s1 @ ''s''\<rparr>"
  let ?s3 = "?s2\<lparr>Command := ?c3, ChildIn := ChildIn ?s2 @ '' ''\<rparr>"
  let ?s4 = "?s3\<lparr>Command := ?c4, ChildIn := ChildIn ?s3 @ ''-''\<rparr>"
  let ?s5 = "?s4\<lparr>Command := ?c5, ChildIn := ChildIn ?s4 @ ''l''\<rparr>"
  let ?s6 = "?s5\<lparr>State := stateNormal, ChildIn := ChildIn ?s5 @ [CHR 0x0D],
               History := Append (History ?s5) historyTypeShellInput (String (Command ?s5)),
               Command := NewShellBuffer\<rparr>"
  have 1: "ParentInputLoop env this ''l'' = Inr ?s1"
    using Normal_keystroke [OF assms(1,2) p(1)] by simp
  have 2: "ParentInputLoop env ?s1 ''s'' = Inr ?s2"
    using Shell_keystroke [of ?s1 "CHR ''s''" env] p assms(2) by simp
  have 3: "ParentInputLoop env ?s2 '' '' = Inr ?s3"
    using Shell_keystroke [of ?s2 "CHR '' ''" env] p assms(2) by simp
  have 4: "ParentInputLoop env ?s3 ''-'' = Inr ?s4"
    using Shell_keystroke [of ?s3 "CHR ''-''" env] p assms(2) by simp
  have 5: "ParentInputLoop env ?s4 ''l'' = Inr ?s5"
    using Shell_keystroke [of ?s4 "CHR ''l''" env] p assms(2) by simp
  have 6: "ParentInputLoop env ?s5 [CHR 0x0D] = Inr ?s6"
    using Shell_return [of ?s5 env] assms(2) by simp
  have n: "\<not> Stopped ?s1" "\<not> Stopped ?s2" "\<not> Stopped ?s3" "\<not> Stopped ?s4" "\<not> Stopped ?s5"
    using assms(3) by simp_all
  have run: "Mux env this (keystrokes (''ls -l'' @ [CHR 0x0D])) = Inr ?s6"
    unfolding keystrokes_def
    by (simp only: list.map append.simps Mux_ParentIn [OF assms(3) 1] Mux_ParentIn [OF n(1) 2]
          Mux_ParentIn [OF n(2) 3] Mux_ParentIn [OF n(3) 4] Mux_ParentIn [OF n(4) 5]
          Mux_ParentIn [OF n(5) 6] Mux.simps(1))
  have str: "String ?c5 = ''ls -l''"
    by code_simp
  have new: "String (Write NewShellBuffer ''ls -l'') = ''ls -l''"
    by code_simp
  have h: "History ?s6 = Append (History this) historyTypeShellInput ''ls -l''"
    by (simp add: str)
  have b: "Blocks (History this) = [] \<longrightarrow>
            map (\<lambda>b. (Type b, String (Content b))) (Blocks (History ?s6)) =
              [(historyTypeShellInput, ''ls -l'')]"
    unfolding h by (simp add: Append_def add_def new del: Write.simps)
  show ?thesis
    using run h b by (intro exI [of _ ?s6]) simp
qed

theorem passthrough_keystrokes_witness:
  "State (initialShellState DarkShellColorScheme 80 16384) = stateNormal
   \<and> parentInBuffer (initialShellState DarkShellColorScheme 80 16384) = []
   \<and> \<not> Stopped (initialShellState DarkShellColorScheme 80 16384)
   \<and> map_sum id (\<lambda>s. (State s, ChildIn s, map (\<lambda>b. (Type b, String (Content b))) (Blocks (History s))))
       (Mux exampleEnv (initialShellState DarkShellColorScheme 80 16384)
          (keystrokes (''ls -l'' @ [CHR 0x0D])))
     = Inr (stateNormal, ''ls -l'' @ [CHR 0x0D], [(historyTypeShellInput, ''ls -l'')])"
proof -
  let ?i = "initialShellState DarkShellColorScheme 80 16384"
  have h: "State ?i = stateNormal" "parentInBuffer ?i = []" "\<not> Stopped ?i"
    by (simp_all add: initialShellState_def)
  have e: "Blocks (History ?i) = []" "ChildIn ?i = []"
    by (simp_all add: initialShellState_def NewShellHistory_def)
  from passthrough_keystrokes [OF h, of exampleEnv] e h show ?thesis
    by auto
qed

text \<open>
  The claim as stated, for the bytes sent as one message, fails: in Normal state the
  whole chunk, carriage return included, is written to the command buffer and to the
  child and is consumed; the state ends Shell and the history has no block.
\<close>

theorem passthrough_one_frame_counterexample:
  "map_sum id (\<lambda>s. (State s, ChildIn s, length (Blocks (History s))))
     (Mux exampleEnv (initialShellState DarkShellColorScheme 80 16384)
        [ParentIn (Some (''ls -l'' @ [CHR 0x0D]))])
     = Inr (stateShell, ''ls -l'' @ [CHR 0x0D], 0)"
  by code_simp

end
